theory Spec2Isabelle
  imports Main "HOL-Library.Sublist"
begin

section \<open>Strings and error classification\<close>

text \<open>
  JavaScript's \<^verbatim>\<open>message.toLowerCase()\<close> and \<^verbatim>\<open>message.includes(sub)\<close>, on
  strings of 8-bit characters. Lower-casing maps the ASCII capitals to their small letters
  and leaves every other character alone; \<^verbatim>\<open>includes\<close> is the test for a contiguous
  substring.
\<close>

definition toLowerChar :: "char \<Rightarrow> char" where
  "toLowerChar c =
     (case map_of (zip ''ABCDEFGHIJKLMNOPQRSTUVWXYZ'' ''abcdefghijklmnopqrstuvwxyz'') c of
        None \<Rightarrow> c
      | Some d \<Rightarrow> d)"

definition toLowerCase :: "string \<Rightarrow> string" where
  "toLowerCase s = map toLowerChar s"

definition str_includes :: "string \<Rightarrow> string \<Rightarrow> bool" where
  "str_includes s sub = sublist sub s"

datatype error_type =
    ALREADY_KNOWN
  | NONCE_ERROR
  | NETWORK_ERROR
  | RPC_ERROR
  | INSUFFICIENT_FUNDS
  | REPLACEMENT_UNDERPRICED
  | UNKNOWN_ERROR

text \<open>\<^verbatim>\<open>classifyError\<close> of the multi-signer script; the argument is \<^verbatim>\<open>error.message\<close>.\<close>

definition classifyError :: "string \<Rightarrow> error_type" where
  "classifyError error_message =
     (let message = toLowerCase error_message in
      if str_includes message ''already known''
           \<or> str_includes message ''transaction already exists'' then ALREADY_KNOWN
      else if str_includes message ''nonce''
           \<and> (str_includes message ''too low'' \<or> str_includes message ''already been used'')
        then NONCE_ERROR
      else if str_includes message ''timeout'' \<or> str_includes message ''econnreset''
           \<or> str_includes message ''network'' then NETWORK_ERROR
      else if str_includes message ''-32000'' then RPC_ERROR
      else if str_includes message ''insufficient funds'' then INSUFFICIENT_FUNDS
      else UNKNOWN_ERROR)"

text \<open>\<^verbatim>\<open>classifyError\<close> of the single-signer scripts (\<^verbatim>\<open>mint_batch_200k_300k.js\<close>).\<close>

definition classifyError_single :: "string \<Rightarrow> error_type" where
  "classifyError_single error_message =
     (let message = toLowerCase error_message in
      if str_includes message ''already known''
           \<or> str_includes message ''transaction already exists'' then ALREADY_KNOWN
      else if str_includes message ''nonce''
           \<and> (str_includes message ''too low'' \<or> str_includes message ''already been used'')
        then NONCE_ERROR
      else if str_includes message ''timeout'' \<or> str_includes message ''econnreset''
           \<or> str_includes message ''network'' then NETWORK_ERROR
      else if str_includes message ''replacement transaction underpriced''
        then REPLACEMENT_UNDERPRICED
      else UNKNOWN_ERROR)"

section \<open>Data of the multi-signer script\<close>

text \<open>
  The module-level \<^verbatim>\<open>CONFIG\<close> object. \<open>SIGNERS\<close> holds the wallet addresses of
  \<^verbatim>\<open>CONFIG.SIGNER_KEYS\<close> (one wallet per key); the script's own values are in
  \<open>CONFIG\<close> below.
\<close>

record config =
  SIGNERS :: "string list"
  START_TOKEN_ID :: nat
  END_TOKEN_ID :: nat
  MINT_RATE_LIMIT :: nat
  BATCH_SIZE :: nat
  RETRY_ATTEMPTS :: nat
  SIGNER_BACKOFF_THRESHOLD :: nat
  SIGNER_BACKOFF_DURATION :: nat
  MINT_LOG_PATH :: string

definition CONFIG :: "string list \<Rightarrow> config" where
  "CONFIG signer_addresses =
     \<lparr> SIGNERS = signer_addresses,
       START_TOKEN_ID = 300001,
       END_TOKEN_ID = 400000,
       MINT_RATE_LIMIT = 10,
       BATCH_SIZE = 60,
       RETRY_ATTEMPTS = 5,
       SIGNER_BACKOFF_THRESHOLD = 3,
       SIGNER_BACKOFF_DURATION = 30000,
       MINT_LOG_PATH = ''output/multi_signer_optimized_log.json'' \<rparr>"

text \<open>
  A counter field as JavaScript has it: \<^verbatim>\<open>x++\<close> on a missing field (or on NaN) gives NaN,
  on \<^verbatim>\<open>null\<close> (what JSON stores for NaN) gives 1, on a number the next number.
\<close>

datatype js_counter = NotANumber | JsNull | Num nat

fun js_incr :: "js_counter \<Rightarrow> js_counter" where
  "js_incr NotANumber = NotANumber"
| "js_incr JsNull = Num 1"
| "js_incr (Num n) = Num (Suc n)"

text \<open>
  One entry of \<^verbatim>\<open>mintLog.tokens\<close>. Fields a record may lack are options; the ISO
  timestamps (\<^verbatim>\<open>startedAt\<close>, \<^verbatim>\<open>completedAt\<close>, \<^verbatim>\<open>failedAt\<close>) are left out. The field
  \<^verbatim>\<open>note\<close> is called \<open>noteText\<close>.
\<close>

record token_record =
  tokenId :: nat
  status :: string
  attempts :: js_counter
  metadataUri :: "string option"
  txHash :: "string option"
  blockNumber :: "nat option"
  gasUsed :: "nat option"
  signerIndex :: "nat option"
  signerAddress :: "string option"
  nonce :: "nat option"
  lastSignerIndex :: "nat option"
  error :: "string option"
  errorType :: "error_type option"
  finalAttempt :: "nat option"
  noteText :: "string option"

record summary =
  total :: int
  successful :: int
  failed :: int
  pending :: int

text \<open>
  \<^verbatim>\<open>initializeSignerStates\<close> creates \<^verbatim>\<open>signerStates[i]\<close> and \<^verbatim>\<open>mintLog.signerStats[i]\<close>
  together, for every \<open>i < signers.length\<close>, and nothing else adds or removes a key. The
  two objects are therefore one list here: the entry of signer \<open>i\<close> holds the fields of
  \<^verbatim>\<open>signerStates[i]\<close> and, under \<open>stats\<close>, the object \<^verbatim>\<open>mintLog.signerStats[i]\<close>. The
  length of the list is \<^verbatim>\<open>signers.length\<close>.
\<close>

record signer_stats =
  address :: string
  minted :: nat
  stats_failed :: nat
  backedOff :: nat

record signer_state =
  consecutiveFailures :: nat
  isBackedOff :: bool
  backoffUntil :: nat
  totalMinted :: nat
  totalFailed :: nat
  lastUsed :: nat
  stats :: signer_stats

text \<open>The object \<^verbatim>\<open>mintLog\<close> as \<^verbatim>\<open>fs.writeJson\<close> receives it.\<close>

record mint_log =
  log_tokens :: "nat \<rightharpoonup> token_record"
  log_summary :: summary
  log_signerStats :: "signer_stats list"

text \<open>
  Calls on the chain interface, in the order they are issued, and the receipt a mined
  transaction returns.
\<close>

datatype chain_op =
    OpGetNetwork
  | OpGetBalance nat
  | OpGetTransactionCount nat
  | OpEstimateGas nat
  | OpMintURI nat nat string

record receipt =
  r_hash :: string
  r_blockNumber :: nat
  r_gasUsed :: nat

text \<open>
  The module-level state: \<^verbatim>\<open>mintLog.tokens\<close>, \<^verbatim>\<open>mintLog.summary\<close> and the signer
  list, together with the trace of the chain calls issued so far.
\<close>

record engine =
  tokens :: "nat \<rightharpoonup> token_record"
  summary :: summary
  signerStates :: "signer_state list"
  chainOps :: "chain_op list"

definition mintLog :: "engine \<Rightarrow> mint_log" where
  "mintLog st =
     \<lparr> log_tokens = tokens st,
       log_summary = summary st,
       log_signerStats = map stats (signerStates st) \<rparr>"

text \<open>
  What the outside world answers during one call of \<^verbatim>\<open>mintSingleTokenOptimized\<close>:
  the clock read by \<^verbatim>\<open>getNextAvailableSigner\<close>, the result of \<^verbatim>\<open>getFreshNonce\<close> and
  of \<^verbatim>\<open>sendTransactionWithTimeout\<close> (\<open>Inl\<close> carries the message of the error thrown),
  and the clock read by \<^verbatim>\<open>handleSignerFailure\<close>. The delays of the script only let time
  pass, so they are part of these clock readings.
\<close>

record world =
  w_now :: nat
  w_nonce :: "string + nat"
  w_send :: "string + receipt"
  w_fail_now :: nat

datatype js_error = TypeError

section \<open>Signer pool\<close>

definition reactivate :: "nat \<Rightarrow> signer_state \<Rightarrow> signer_state" where
  "reactivate now s =
     (if isBackedOff s \<and> now > backoffUntil s
      then s\<lparr>isBackedOff := False, consecutiveFailures := 0\<rparr>
      else s)"

text \<open>
  \<^verbatim>\<open>Object.keys(signerStates).filter(i => !isBackedOff).sort(by lastUsed)[0]\<close>:
  the keys come in index order and the sort is stable.
\<close>

definition oldestSignerIndex :: "signer_state list \<Rightarrow> nat option" where
  "oldestSignerIndex ss =
     (case sort_key (\<lambda>i. lastUsed (ss ! i))
             (filter (\<lambda>i. \<not> isBackedOff (ss ! i)) [0 ..< length ss]) of
        [] \<Rightarrow> None
      | i # _ \<Rightarrow> Some i)"

function signerLoop :: "nat \<Rightarrow> nat \<Rightarrow> signer_state list \<Rightarrow> nat option \<times> signer_state list" where
  "signerLoop tries now ss =
     (if tries < length ss then
        (case oldestSignerIndex ss of
           Some i \<Rightarrow> (Some i, ss[i := (ss ! i)\<lparr>lastUsed := now\<rparr>])
         | None \<Rightarrow> signerLoop (Suc tries) now ss)
      else (None, ss))"
  by pat_completeness auto
termination
  by (relation "measure (\<lambda>(tries, now, ss). length ss - tries)") auto

declare signerLoop.simps [simp del]

definition getNextAvailableSigner :: "nat \<Rightarrow> signer_state list \<Rightarrow> nat option \<times> signer_state list" where
  "getNextAvailableSigner now ss = signerLoop 0 now (map (reactivate now) ss)"

text \<open>
  \<^verbatim>\<open>signerStates[i]\<close> of an index the pool does not have is \<^verbatim>\<open>undefined\<close>, and the first
  field access on it throws a TypeError before anything is changed.
\<close>

definition handleSignerFailure :: "config \<Rightarrow> nat \<Rightarrow> nat \<Rightarrow> engine \<Rightarrow> js_error + engine" where
  "handleSignerFailure cfg idx now st =
     (if idx < length (signerStates st) then
        let s = signerStates st ! idx;
            s1 = s\<lparr>consecutiveFailures := Suc (consecutiveFailures s),
                   totalFailed := Suc (totalFailed s),
                   stats := (stats s)\<lparr>stats_failed := Suc (stats_failed (stats s))\<rparr>\<rparr>
        in if consecutiveFailures s1 \<ge> SIGNER_BACKOFF_THRESHOLD cfg then
             Inr (st\<lparr>signerStates := (signerStates st)
                    [idx := s1\<lparr>isBackedOff := True,
                                backoffUntil := now + SIGNER_BACKOFF_DURATION cfg,
                                stats := (stats s1)\<lparr>backedOff := Suc (backedOff (stats s1))\<rparr>\<rparr>]\<rparr>)
           else Inr (st\<lparr>signerStates := (signerStates st)[idx := s1]\<rparr>)
      else Inl TypeError)"

definition handleSignerSuccess :: "nat \<Rightarrow> engine \<Rightarrow> js_error + engine" where
  "handleSignerSuccess idx st =
     (if idx < length (signerStates st) then
        let s = signerStates st ! idx
        in Inr (st\<lparr>signerStates := (signerStates st)
                  [idx := s\<lparr>consecutiveFailures := 0,
                             totalMinted := Suc (totalMinted s),
                             stats := (stats s)\<lparr>minted := Suc (minted (stats s))\<rparr>\<rparr>]\<rparr>)
      else Inl TypeError)"

section \<open>Minting one token\<close>

definition buildMetadataUri :: "nat \<Rightarrow> string" where
  "buildMetadataUri tid = ''ipfs://QmRT8DUSsFLZrrhgyhcSwh8988xx1kKCuR5SLpDS2hWkDN''"

text \<open>The record \<^verbatim>\<open>{tokenId, status: 'pending', attempts: 0}\<close> a first attempt creates.\<close>

definition newTokenRecord :: "nat \<Rightarrow> token_record" where
  "newTokenRecord tid =
     \<lparr> tokenId = tid, status = ''pending'', attempts = Num 0, metadataUri = None,
       txHash = None, blockNumber = None, gasUsed = None, signerIndex = None,
       signerAddress = None, nonce = None, lastSignerIndex = None, error = None,
       errorType = None, finalAttempt = None, noteText = None \<rparr>"

text \<open>
  What \<^verbatim>\<open>{...mintLog.tokens[tokenId]}\<close> spreads: the fields of the record, or none when
  the key is missing (\<open>tokenId\<close> has no option in the record type and is filled in).
\<close>

definition spreadRecord :: "nat \<Rightarrow> token_record option \<Rightarrow> token_record" where
  "spreadRecord tid old =
     (case old of
        Some r \<Rightarrow> r
      | None \<Rightarrow> (newTokenRecord tid)\<lparr>status := [], attempts := NotANumber\<rparr>)"

text \<open>The start of the \<^verbatim>\<open>try\<close> block: create the record when missing, then \<^verbatim>\<open>attempts++\<close>.\<close>

definition beginAttempt :: "nat \<Rightarrow> engine \<Rightarrow> engine" where
  "beginAttempt tid st =
     (let r = (case tokens st tid of None \<Rightarrow> newTokenRecord tid | Some r \<Rightarrow> r)
      in st\<lparr>tokens := (tokens st)(tid \<mapsto> r\<lparr>attempts := js_incr (attempts r)\<rparr>)\<rparr>)"

text \<open>How one pass through the function body ends: it returns, or it calls itself again.\<close>

datatype step = Done bool engine | Retry engine

fun stepState :: "step \<Rightarrow> engine" where
  "stepState (Done b st) = st"
| "stepState (Retry st) = st"

text \<open>
  The signer index is not in scope in the \<^verbatim>\<open>catch\<close> block; the block works with
  \<^verbatim>\<open>mintLog.tokens[tokenId]?.lastSignerIndex\<close> (\<open>recordedSigner\<close>) and with that value
  \<^verbatim>\<open>|| 0\<close> (\<open>blamedSigner\<close>).
\<close>

definition recordedSigner :: "(nat \<rightharpoonup> token_record) \<Rightarrow> nat \<Rightarrow> nat option" where
  "recordedSigner toks tid = (case toks tid of None \<Rightarrow> None | Some r \<Rightarrow> lastSignerIndex r)"

definition blamedSigner :: "(nat \<rightharpoonup> token_record) \<Rightarrow> nat \<Rightarrow> nat" where
  "blamedSigner toks tid = (case recordedSigner toks tid of None \<Rightarrow> 0 | Some i \<Rightarrow> i)"

text \<open>
  The \<^verbatim>\<open>catch\<close> block, up to the recursive call. \<open>fail_now\<close> is the clock that
  \<^verbatim>\<open>handleSignerFailure\<close> reads.
\<close>

definition catchBlock :: "config \<Rightarrow> nat \<Rightarrow> nat \<Rightarrow> string \<Rightarrow> nat \<Rightarrow> engine \<Rightarrow> js_error + step" where
  "catchBlock cfg tid retryCount error_message fail_now st =
     (let errType = classifyError error_message;
          lastIdx = blamedSigner (tokens st) tid
      in if errType = ALREADY_KNOWN then
           (case handleSignerSuccess lastIdx st of
              Inl e \<Rightarrow> Inl e
            | Inr st1 \<Rightarrow>
                Inr (Done True
                  (st1\<lparr>tokens := (tokens st1)(tid \<mapsto> (spreadRecord tid (tokens st1 tid))
                          \<lparr>status := ''completed'',
                           metadataUri := Some (buildMetadataUri tid),
                           txHash := Some ''already_known'',
                           noteText := Some ''Transaction already known''\<rparr>),
                       summary := (summary st1)
                          \<lparr>successful := successful (summary st1) + 1,
                           pending := pending (summary st1) - 1\<rparr>\<rparr>)))
         else
           (case (case recordedSigner (tokens st) tid of
                    None \<Rightarrow> Inr st
                  | Some i \<Rightarrow> handleSignerFailure cfg i fail_now st) of
              Inl e \<Rightarrow> Inl e
            | Inr st1 \<Rightarrow>
                (case tokens st1 tid of
                   None \<Rightarrow> Inl TypeError
                 | Some r \<Rightarrow>
                     let r1 = r\<lparr>lastSignerIndex := Some lastIdx\<rparr>;
                         st2 = st1\<lparr>tokens := (tokens st1)(tid \<mapsto> r1)\<rparr>
                     in if retryCount < RETRY_ATTEMPTS cfg then Inr (Retry st2)
                        else
                          Inr (Done False
                            (st2\<lparr>tokens := (tokens st2)(tid \<mapsto> r1
                                    \<lparr>status := ''failed'',
                                     error := Some error_message,
                                     errorType := Some errType,
                                     finalAttempt := Some (retryCount + 1)\<rparr>),
                                 summary := (summary st2)
                                    \<lparr>failed := failed (summary st2) + 1,
                                     pending := pending (summary st2) - 1\<rparr>\<rparr>)))))"

text \<open>
  The \<^verbatim>\<open>try\<close> block once a signer \<open>idx\<close> is in hand. \<^verbatim>\<open>getFreshNonce\<close> asks the chain for
  the signer's transaction count; \<^verbatim>\<open>sendTransactionWithTimeout\<close> estimates the gas (a
  failure there is caught and replaced by a constant), sends \<^verbatim>\<open>mintURI\<close> with that nonce
  and waits for the receipt. Anything thrown goes to the \<^verbatim>\<open>catch\<close> block.
  \<open>afterNonceQuery\<close> is the state when \<^verbatim>\<open>getFreshNonce\<close> has been called,
  \<open>afterSend\<close> the state when the transaction has been sent.
\<close>

definition afterNonceQuery :: "nat \<Rightarrow> nat \<Rightarrow> engine \<Rightarrow> engine" where
  "afterNonceQuery tid idx st =
     (beginAttempt tid st)\<lparr>chainOps := chainOps st @ [OpGetTransactionCount idx]\<rparr>"

definition afterSend :: "nat \<Rightarrow> nat \<Rightarrow> nat \<Rightarrow> engine \<Rightarrow> engine" where
  "afterSend tid idx nonceValue st =
     (beginAttempt tid st)\<lparr>chainOps := chainOps st
        @ [OpGetTransactionCount idx, OpEstimateGas idx,
           OpMintURI idx nonceValue (buildMetadataUri tid)]\<rparr>"

definition attemptMint :: "config \<Rightarrow> nat \<Rightarrow> nat \<Rightarrow> nat \<Rightarrow> world \<Rightarrow> engine \<Rightarrow> js_error + step" where
  "attemptMint cfg tid retryCount idx w st =
     (case w_nonce w of
        Inl msg \<Rightarrow> catchBlock cfg tid retryCount msg (w_fail_now w) (afterNonceQuery tid idx st)
      | Inr nonceValue \<Rightarrow>
          let st3 = afterSend tid idx nonceValue st
          in case w_send w of
               Inl msg \<Rightarrow> catchBlock cfg tid retryCount msg (w_fail_now w) st3
             | Inr rcpt \<Rightarrow>
                 (case handleSignerSuccess idx st3 of
                    Inl e \<Rightarrow>
                      catchBlock cfg tid retryCount ''Cannot set properties of undefined''
                        (w_fail_now w) st3
                  | Inr st4 \<Rightarrow>
                      Inr (Done True
                        (st4\<lparr>tokens := (tokens st4)(tid \<mapsto> (spreadRecord tid (tokens st4 tid))
                                \<lparr>status := ''completed'',
                                 metadataUri := Some (buildMetadataUri tid),
                                 txHash := Some (r_hash rcpt),
                                 blockNumber := Some (r_blockNumber rcpt),
                                 gasUsed := Some (r_gasUsed rcpt),
                                 signerIndex := Some idx,
                                 signerAddress := Some (address (stats (signerStates st4 ! idx))),
                                 nonce := Some nonceValue\<rparr>),
                             summary := (summary st4)
                                \<lparr>successful := successful (summary st4) + 1,
                                 pending := pending (summary st4) - 1\<rparr>\<rparr>))))"

text \<open>
  \<^verbatim>\<open>mintSingleTokenOptimized(tokenId, retryCount)\<close>. Each pass through the body takes
  one \<open>world\<close> from the list; \<open>None\<close> says that the call has not returned within the
  worlds given (it is still waiting for a signer, or still retrying). A result \<open>Inl\<close> is
  an exception that leaves the function; \<open>Inr (b, st, ws)\<close> is the returned boolean,
  the state, and the worlds not yet used.
\<close>

fun mintSingleTokenOptimized ::
  "config \<Rightarrow> nat \<Rightarrow> nat \<Rightarrow> world list \<Rightarrow> engine \<Rightarrow> (js_error + bool \<times> engine \<times> world list) option"
where
  "mintSingleTokenOptimized cfg tid retryCount [] st = None"
| "mintSingleTokenOptimized cfg tid retryCount (w # ws) st =
     (case getNextAvailableSigner (w_now w) (signerStates st) of
        (None, ss) \<Rightarrow> mintSingleTokenOptimized cfg tid retryCount ws (st\<lparr>signerStates := ss\<rparr>)
      | (Some idx, ss) \<Rightarrow>
          (case attemptMint cfg tid retryCount idx w (st\<lparr>signerStates := ss\<rparr>) of
             Inl e \<Rightarrow> Some (Inl e)
           | Inr (Done b st1) \<Rightarrow> Some (Inr (b, st1, ws))
           | Inr (Retry st1) \<Rightarrow> mintSingleTokenOptimized cfg tid (Suc retryCount) ws st1))"



section \<open>Batches and the main function\<close>

text \<open>
  \<^verbatim>\<open>Promise.all(batch.map(tokenId => mintLimit(() => mintSingleTokenOptimized(tokenId))))\<close>,
  with the tokens of the batch taken one after the other. Each call reads and writes only
  the record of its own token in \<^verbatim>\<open>mintLog.tokens\<close>.
\<close>

fun mintBatch ::
  "config \<Rightarrow> nat list \<Rightarrow> world list \<Rightarrow> engine \<Rightarrow> (js_error + bool list \<times> engine \<times> world list) option"
where
  "mintBatch cfg [] ws st = Some (Inr ([], st, ws))"
| "mintBatch cfg (tid # tids) ws st =
     (case mintSingleTokenOptimized cfg tid 0 ws st of
        None \<Rightarrow> None
      | Some (Inl e) \<Rightarrow> Some (Inl e)
      | Some (Inr (b, st1, ws1)) \<Rightarrow>
          (case mintBatch cfg tids ws1 st1 of
             None \<Rightarrow> None
           | Some (Inl e) \<Rightarrow> Some (Inl e)
           | Some (Inr (bs, st2, ws2)) \<Rightarrow> Some (Inr (b # bs, st2, ws2))))"

text \<open>
  A batch: mint its tokens, then save. The result carries the state, the worlds not yet
  used, and the object handed to \<^verbatim>\<open>fs.writeJson\<close>.
\<close>

definition processBatchOptimized ::
  "config \<Rightarrow> nat list \<Rightarrow> world list \<Rightarrow> engine
     \<Rightarrow> (js_error + engine \<times> world list \<times> mint_log) option"
where
  "processBatchOptimized cfg batch ws st =
     (case mintBatch cfg batch ws st of
        None \<Rightarrow> None
      | Some (Inl e) \<Rightarrow> Some (Inl e)
      | Some (Inr (results, st1, ws1)) \<Rightarrow> Some (Inr (st1, ws1, mintLog st1)))"

text \<open>
  The ids the main function queues: the range \<open>START_TOKEN_ID .. END_TOKEN_ID\<close> in
  ascending order, keeping an id when \<^verbatim>\<open>mintLog.tokens\<close> has no record for it or the
  record's status is \<^verbatim>\<open>'pending'\<close> or \<^verbatim>\<open>'failed'\<close>.
\<close>

definition pendingTokens :: "config \<Rightarrow> (nat \<rightharpoonup> token_record) \<Rightarrow> nat list" where
  "pendingTokens cfg toks =
     filter (\<lambda>tid. case toks tid of
                     None \<Rightarrow> True
                   | Some r \<Rightarrow> status r = ''pending'' \<or> status r = ''failed'')
       [START_TOKEN_ID cfg ..< Suc (END_TOKEN_ID cfg)]"

text \<open>
  The loop \<^verbatim>\<open>for (i = 0; i < pendingTokens.length; i += BATCH_SIZE)\<close>; with a batch size
  of 0 it never ends. \<open>saved\<close> collects the objects written to the log file.
\<close>

function batchLoop ::
  "config \<Rightarrow> nat list \<Rightarrow> nat \<Rightarrow> world list \<Rightarrow> engine \<Rightarrow> mint_log list
     \<Rightarrow> (js_error + engine \<times> world list \<times> mint_log list) option"
where
  "batchLoop cfg queue i ws st saved =
     (if BATCH_SIZE cfg = 0 then None
      else if i < length queue then
        (case processBatchOptimized cfg (take (BATCH_SIZE cfg) (drop i queue)) ws st of
           None \<Rightarrow> None
         | Some (Inl e) \<Rightarrow> Some (Inl e)
         | Some (Inr (st1, ws1, lg)) \<Rightarrow>
             batchLoop cfg queue (i + BATCH_SIZE cfg) ws1 st1 (saved @ [lg]))
      else Some (Inr (st, ws, saved)))"
  by pat_completeness auto
termination
  by (relation "measure (\<lambda>(cfg, queue, i, ws, st, saved). length queue - i)") auto

declare batchLoop.simps [simp del]

text \<open>
  \<^verbatim>\<open>loadExistingProgress\<close>: the log read from the file when there is one, the initial
  \<^verbatim>\<open>mintLog\<close> otherwise. No signer exists before \<^verbatim>\<open>initializeBlockchain\<close>.
\<close>

definition loadExistingProgress :: "mint_log option \<Rightarrow> engine" where
  "loadExistingProgress file =
     (case file of
        Some lg \<Rightarrow>
          \<lparr> tokens = log_tokens lg, summary = log_summary lg, signerStates = [],
            chainOps = [] \<rparr>
      | None \<Rightarrow>
          \<lparr> tokens = Map.empty,
            summary = \<lparr> total = 100000, successful = 0, failed = 0, pending = 100000 \<rparr>,
            signerStates = [], chainOps = [] \<rparr>)"

text \<open>
  \<^verbatim>\<open>initializeBlockchain\<close>: one signer per key, each with a fresh state, then the network
  and balance queries (the balances are asked only when the network query succeeded).
\<close>

definition initializeBlockchain :: "config \<Rightarrow> nat \<Rightarrow> bool \<Rightarrow> engine \<Rightarrow> engine" where
  "initializeBlockchain cfg now network_ok st =
     st\<lparr>signerStates :=
          map (\<lambda>a. \<lparr> consecutiveFailures = 0, isBackedOff = False, backoffUntil = 0,
                     totalMinted = 0, totalFailed = 0, lastUsed = now,
                     stats = \<lparr> address = a, minted = 0, stats_failed = 0, backedOff = 0 \<rparr> \<rparr>)
              (SIGNERS cfg),
        chainOps := chainOps st @ OpGetNetwork #
          (if network_ok then map OpGetBalance [0 ..< length (SIGNERS cfg)] else [])\<rparr>"

text \<open>
  \<^verbatim>\<open>main\<close>, from the log file found at start (if any) to the state at the end and
  the objects written to the log file on the way; \<open>Inl\<close> is the fatal-error exit.
\<close>

definition main ::
  "config \<Rightarrow> mint_log option \<Rightarrow> nat \<Rightarrow> bool \<Rightarrow> world list
     \<Rightarrow> (js_error + engine \<times> mint_log list) option"
where
  "main cfg file now network_ok ws =
     (let st = loadExistingProgress file;
          queue = pendingTokens cfg (tokens st)
      in if queue = [] then Some (Inr (st, []))
         else
           (case batchLoop cfg queue 0 ws (initializeBlockchain cfg now network_ok st) [] of
              None \<Rightarrow> None
            | Some (Inl e) \<Rightarrow> Some (Inl e)
            | Some (Inr (st1, ws1, saved)) \<Rightarrow> Some (Inr (st1, saved @ [mintLog st1]))))"


section \<open>The single-signer script\<close>

text \<open>
  \<^verbatim>\<open>mint_batch_200k_300k.js\<close> mints from one wallet and numbers its transactions itself:
  \<^verbatim>\<open>baseNonce\<close> (\<^verbatim>\<open>null\<close> until the first successful reset) and \<^verbatim>\<open>nonceOffset\<close>.
\<close>

record single_engine =
  s_tokens :: "nat \<rightharpoonup> token_record"
  s_summary :: summary
  baseNonce :: "nat option"
  nonceOffset :: nat
  s_chainOps :: "chain_op list"

definition CONFIG_single :: config where
  "CONFIG_single =
     \<lparr> SIGNERS = [],
       START_TOKEN_ID = 200001,
       END_TOKEN_ID = 300000,
       MINT_RATE_LIMIT = 10,
       BATCH_SIZE = 50,
       RETRY_ATTEMPTS = 5,
       SIGNER_BACKOFF_THRESHOLD = 0,
       SIGNER_BACKOFF_DURATION = 0,
       MINT_LOG_PATH = ''output/batch_200k_300k_mint_log.json'' \<rparr>"

text \<open>\<^verbatim>\<open>getNextNonce\<close>; in the sum \<^verbatim>\<open>null\<close> counts as 0.\<close>

definition getNextNonce :: "single_engine \<Rightarrow> nat \<times> single_engine" where
  "getNextNonce st =
     ((case baseNonce st of None \<Rightarrow> 0 | Some b \<Rightarrow> b) + nonceOffset st,
      st\<lparr>nonceOffset := Suc (nonceOffset st)\<rparr>)"

text \<open>
  \<^verbatim>\<open>resetNonceSequence\<close>; \<open>answer\<close> is the pending transaction count the chain
  returns, or \<open>None\<close> when the query throws (the error is caught and nothing changes).
\<close>

definition resetNonceSequence :: "nat option \<Rightarrow> single_engine \<Rightarrow> single_engine" where
  "resetNonceSequence answer st =
     (let st1 = st\<lparr>s_chainOps := s_chainOps st @ [OpGetTransactionCount 0]\<rparr>
      in case answer of
           None \<Rightarrow> st1
         | Some n \<Rightarrow> st1\<lparr>baseNonce := Some n, nonceOffset := 0\<rparr>)"


text \<open>
  What the chain answers to one attempt: the outcome of sending \<^verbatim>\<open>mintURI\<close> and waiting
  for the receipt, and the answer to the nonce query of a reset.
\<close>

record attempt_world =
  a_send :: "string + receipt"
  a_pending :: "nat option"

text \<open>
  \<^verbatim>\<open>mintSingleToken(contract, tokenId, retryCount)\<close>; \<open>env tid k\<close> is the world of the
  attempt with retry count \<open>k\<close> on token \<open>tid\<close>.
\<close>

function mintSingleToken ::
  "config \<Rightarrow> (nat \<Rightarrow> nat \<Rightarrow> attempt_world) \<Rightarrow> nat \<Rightarrow> nat \<Rightarrow> single_engine \<Rightarrow> bool \<times> single_engine"
where
  "mintSingleToken cfg env tid retryCount st =
     (let r = (case s_tokens st tid of None \<Rightarrow> newTokenRecord tid | Some r \<Rightarrow> r);
          st1 = st\<lparr>s_tokens := (s_tokens st)(tid \<mapsto> r\<lparr>attempts := js_incr (attempts r)\<rparr>)\<rparr>;
          uri = buildMetadataUri tid;
          nonceValue = fst (getNextNonce st1);
          st2 = snd (getNextNonce st1);
          st3 = st2\<lparr>s_chainOps := s_chainOps st2 @ [OpEstimateGas 0, OpMintURI 0 nonceValue uri]\<rparr>
      in case a_send (env tid retryCount) of
           Inr rcpt \<Rightarrow>
             (True,
              st3\<lparr>s_tokens := (s_tokens st3)(tid \<mapsto> (spreadRecord tid (s_tokens st3 tid))
                      \<lparr>status := ''completed'',
                       metadataUri := Some uri,
                       txHash := Some (r_hash rcpt),
                       blockNumber := Some (r_blockNumber rcpt),
                       gasUsed := Some (r_gasUsed rcpt),
                       nonce := Some nonceValue\<rparr>),
                   s_summary := (s_summary st3)
                      \<lparr>successful := successful (s_summary st3) + 1,
                       pending := pending (s_summary st3) - 1\<rparr>\<rparr>)
         | Inl msg \<Rightarrow>
             if classifyError_single msg = ALREADY_KNOWN then
               (True,
                st3\<lparr>s_tokens := (s_tokens st3)(tid \<mapsto> (spreadRecord tid (s_tokens st3 tid))
                        \<lparr>status := ''completed'',
                         metadataUri := Some (buildMetadataUri tid),
                         txHash := Some ''already_known'',
                         noteText := Some ''Transaction already known''\<rparr>),
                     s_summary := (s_summary st3)
                        \<lparr>successful := successful (s_summary st3) + 1,
                         pending := pending (s_summary st3) - 1\<rparr>\<rparr>)
             else if retryCount < RETRY_ATTEMPTS cfg then
               mintSingleToken cfg env tid (Suc retryCount)
                 (if classifyError_single msg = NONCE_ERROR
                  then resetNonceSequence (a_pending (env tid retryCount)) st3 else st3)
             else
               (let st4 = (if classifyError_single msg = NONCE_ERROR
                           then resetNonceSequence (a_pending (env tid retryCount)) st3 else st3)
                in (False,
                    st4\<lparr>s_tokens := (s_tokens st4)(tid \<mapsto> (spreadRecord tid (s_tokens st4 tid))
                            \<lparr>status := ''failed'',
                             error := Some msg,
                             errorType := Some (classifyError_single msg),
                             finalAttempt := Some (retryCount + 1)\<rparr>),
                         s_summary := (s_summary st4)
                            \<lparr>failed := failed (s_summary st4) + 1,
                             pending := pending (s_summary st4) - 1\<rparr>\<rparr>)))"
  by pat_completeness auto
termination
  by (relation "measure (\<lambda>(cfg, env, tid, retryCount, st). RETRY_ATTEMPTS cfg - retryCount)") auto

declare mintSingleToken.simps [simp del]

text \<open>The tokens of a batch, one after the other.\<close>

fun mintTokens_single ::
  "config \<Rightarrow> (nat \<Rightarrow> nat \<Rightarrow> attempt_world) \<Rightarrow> nat list \<Rightarrow> single_engine \<Rightarrow> bool list \<times> single_engine"
where
  "mintTokens_single cfg env [] st = ([], st)"
| "mintTokens_single cfg env (tid # tids) st =
     (let (b, st1) = mintSingleToken cfg env tid 0 st;
          (bs, st2) = mintTokens_single cfg env tids st1
      in (b # bs, st2))"

text \<open>
  \<^verbatim>\<open>mintLog\<close> of the single-signer script as the log file holds it: the entries of
  \<^verbatim>\<open>mintLog.tokens\<close>, one pair per key, as \<^verbatim>\<open>Object.entries\<close> lists them, and the
  summary.
\<close>

record single_log =
  sl_entries :: "(nat \<times> token_record) list"
  sl_summary :: summary

text \<open>
  The record \<^verbatim>\<open>{tokenId, status: 'pending'}\<close> that \<^verbatim>\<open>loadExistingProgress\<close> creates
  for every id of the range when there is no log file. It has no \<^verbatim>\<open>attempts\<close> field:
  the counter is \<open>NotANumber\<close>, which is what \<^verbatim>\<open>attempts++\<close> makes of a missing field.
\<close>

definition precreated :: "nat \<Rightarrow> token_record" where
  "precreated tid = (newTokenRecord tid)\<lparr>attempts := NotANumber\<rparr>"

text \<open>
  \<^verbatim>\<open>loadExistingProgress\<close> of the single-signer script: the log read from the file when
  there is one; otherwise a record for every id of the range.
\<close>

definition loadExistingProgress_single :: "config \<Rightarrow> single_log option \<Rightarrow> single_log" where
  "loadExistingProgress_single cfg file =
     (case file of
        Some lg \<Rightarrow> lg
      | None \<Rightarrow>
          \<lparr> sl_entries = map (\<lambda>tid. (tid, precreated tid))
                            [START_TOKEN_ID cfg ..< Suc (END_TOKEN_ID cfg)],
            sl_summary =
              \<lparr> total = int (END_TOKEN_ID cfg) - int (START_TOKEN_ID cfg) + 1,
                successful = 0, failed = 0,
                pending = int (END_TOKEN_ID cfg) - int (START_TOKEN_ID cfg) + 1 \<rparr> \<rparr>)"

text \<open>The state of the script once the log is loaded: no nonce base yet, no chain call made.\<close>

definition startEngine :: "single_log \<Rightarrow> single_engine" where
  "startEngine lg =
     \<lparr> s_tokens = map_of (sl_entries lg), s_summary = sl_summary lg,
       baseNonce = None, nonceOffset = 0, s_chainOps = [] \<rparr>"

text \<open>
  The ids the main function of the single-signer script queues:
  \<^verbatim>\<open>Object.entries(mintLog.tokens).filter(([_, data]) => data.status === 'pending' ||
  data.status === 'failed').map(([tokenId, _]) => parseInt(tokenId)).sort((a, b) => a - b)\<close>.
\<close>

definition pendingTokens_single :: "(nat \<times> token_record) list \<Rightarrow> nat list" where
  "pendingTokens_single entries =
     sort (map fst (filter (\<lambda>(tokenId, data). status data = ''pending''
                                               \<or> status data = ''failed'') entries))"

text \<open>
  \<^verbatim>\<open>initializeBlockchain\<close> of the single-signer script: the network and balance queries,
  then \<^verbatim>\<open>resetNonceSequence\<close> when both succeeded (\<open>answer\<close> is what the nonce query
  returns).
\<close>

definition initializeBlockchain_single :: "bool \<Rightarrow> nat option \<Rightarrow> single_engine \<Rightarrow> single_engine" where
  "initializeBlockchain_single network_ok answer st =
     (let st1 = st\<lparr>s_chainOps := s_chainOps st @ [OpGetNetwork, OpGetBalance 0]\<rparr>
      in if network_ok then resetNonceSequence answer st1 else st1)"

text \<open>What \<^verbatim>\<open>fs.writeJson\<close> is handed: the records and the summary.\<close>

definition mintLog_single :: "single_engine \<Rightarrow> (nat \<rightharpoonup> token_record) \<times> summary" where
  "mintLog_single st = (s_tokens st, s_summary st)"

text \<open>
  The batch loop of the single-signer script: mint the tokens of the batch, save, and
  after every tenth batch that is not the last reset the nonce sequence (\<open>resets n\<close> is
  what the nonce query returns after batch \<open>n\<close>). With a batch size of 0 the loop never
  ends.
\<close>

function batchLoop_single ::
  "config \<Rightarrow> (nat \<Rightarrow> nat \<Rightarrow> attempt_world) \<Rightarrow> (nat \<Rightarrow> nat option) \<Rightarrow> nat list \<Rightarrow> nat
     \<Rightarrow> single_engine \<Rightarrow> ((nat \<rightharpoonup> token_record) \<times> summary) list
     \<Rightarrow> (single_engine \<times> ((nat \<rightharpoonup> token_record) \<times> summary) list) option"
where
  "batchLoop_single cfg env resets queue i st saved =
     (if BATCH_SIZE cfg = 0 then None
      else if i < length queue then
        (let batch = take (BATCH_SIZE cfg) (drop i queue);
             batchNum = i div BATCH_SIZE cfg + 1;
             st1 = snd (mintTokens_single cfg env batch st);
             st2 = (if i + BATCH_SIZE cfg < length queue \<and> batchNum mod 10 = 0
                    then resetNonceSequence (resets batchNum) st1 else st1)
         in batchLoop_single cfg env resets queue (i + BATCH_SIZE cfg) st2
              (saved @ [mintLog_single st1]))
      else Some (st, saved))"
  by pat_completeness auto
termination
  by (relation "measure (\<lambda>(cfg, env, resets, queue, i, st, saved). length queue - i)") auto

declare batchLoop_single.simps [simp del]

text \<open>
  \<^verbatim>\<open>main\<close> of the single-signer script: the state at the end and the objects written
  to the log file on the way (the first by \<^verbatim>\<open>loadExistingProgress\<close> when it creates the
  log).
\<close>

definition main_single ::
  "config \<Rightarrow> single_log option \<Rightarrow> bool \<Rightarrow> nat option \<Rightarrow> (nat \<Rightarrow> nat \<Rightarrow> attempt_world)
     \<Rightarrow> (nat \<Rightarrow> nat option)
     \<Rightarrow> (single_engine \<times> ((nat \<rightharpoonup> token_record) \<times> summary) list) option"
where
  "main_single cfg file network_ok answer env resets =
     (let lg = loadExistingProgress_single cfg file;
          st = startEngine lg;
          written = (case file of None \<Rightarrow> [mintLog_single st] | Some _ \<Rightarrow> []);
          queue = pendingTokens_single (sl_entries lg)
      in if queue = [] then Some (st, written)
         else
           (case batchLoop_single cfg env resets queue 0
                   (initializeBlockchain_single network_ok answer st) written of
              None \<Rightarrow> None
            | Some (st1, saved) \<Rightarrow> Some (st1, saved @ [mintLog_single st1])))"



text \<open>
  An example world for the single-signer script: the first attempt on token 2 is mined and
  reverted, so that waiting for its receipt throws; every other attempt is mined.
\<close>

definition revertedOnce :: "nat \<Rightarrow> nat \<Rightarrow> attempt_world" where
  "revertedOnce tid k =
     (if tid = 2 \<and> k = 0
      then \<lparr> a_send = Inl ''transaction execution reverted'', a_pending = None \<rparr>
      else \<lparr> a_send = Inr \<lparr> r_hash = ''0xh'', r_blockNumber = 10, r_gasUsed = 21000 \<rparr>,
             a_pending = None \<rparr>)"


text \<open>The submissions among the chain calls: the \<^verbatim>\<open>mintURI\<close> transactions sent.\<close>

fun isSubmission :: "chain_op \<Rightarrow> bool" where
  "isSubmission (OpMintURI idx n uri) = True"
| "isSubmission _ = False"

definition submissions :: "chain_op list \<Rightarrow> nat" where
  "submissions ops = length (filter isSubmission ops)"

text \<open>
  A signer is selectable at time \<open>now\<close> when the reactivation pass of
  \<^verbatim>\<open>getNextAvailableSigner\<close> leaves it without the \<^verbatim>\<open>isBackedOff\<close> flag.
\<close>

definition selectable :: "nat \<Rightarrow> signer_state \<Rightarrow> bool" where
  "selectable now s = (\<not> isBackedOff (reactivate now s))"

text \<open>
  What a call of \<^verbatim>\<open>mintSingleTokenOptimized\<close> shows when it has returned: the boolean, the
  number of submissions among the chain calls so far, and the backoff flag of each signer.
\<close>

fun outcome ::
  "(js_error + bool \<times> engine \<times> world list) option \<Rightarrow> (bool \<times> nat \<times> bool list) option"
where
  "outcome (Some (Inr (b, st, ws))) =
     Some (b, submissions (chainOps st), map isBackedOff (signerStates st))"
| "outcome _ = None"

definition isCompleted :: "(nat \<rightharpoonup> token_record) \<Rightarrow> nat \<Rightarrow> bool" where
  "isCompleted toks tid = (case toks tid of None \<Rightarrow> False | Some r \<Rightarrow> status r = ''completed'')"

section \<open>The retry script\<close>

text \<open>
  \<^verbatim>\<open>retry_failed_batch2_optimized.js\<close>: one wallet; the token ids are the lines of a
  text file and key \<^verbatim>\<open>mintLog.tokens\<close> as the strings they are. The script writes each
  record as a whole; a field it does not write is \<open>None\<close>.
\<close>

record retry_record =
  rt_tokenId :: string
  rt_status :: string
  rt_metadataUri :: "string option"
  rt_txHash :: "string option"
  rt_blockNumber :: "nat option"
  rt_gasUsed :: "nat option"
  rt_nonce :: "nat option"
  rt_error :: "string option"
  rt_errorType :: "error_type option"
  rt_retryCount :: "nat option"
  rt_note :: "string option"

text \<open>The state of the script: \<^verbatim>\<open>mintLog\<close>, the nonce cursor and the chain calls made.\<close>

record retry_engine =
  rt_tokens :: "string \<rightharpoonup> retry_record"
  rt_summary :: summary
  rt_baseNonce :: "nat option"
  rt_nonceOffset :: nat
  rt_chainOps :: "chain_op list"


text \<open>
  \<^verbatim>\<open>buildMetadataUri\<close>, \<^verbatim>\<open>getNextNonce\<close> and \<^verbatim>\<open>resetNonceSequence\<close> of the retry
  script; they read as in the single-signer script.
\<close>

definition buildMetadataUri_retry :: "string \<Rightarrow> string" where
  "buildMetadataUri_retry tid = ''ipfs://QmRT8DUSsFLZrrhgyhcSwh8988xx1kKCuR5SLpDS2hWkDN''"

definition getNextNonce_retry :: "retry_engine \<Rightarrow> nat \<times> retry_engine" where
  "getNextNonce_retry st =
     ((case rt_baseNonce st of None \<Rightarrow> 0 | Some b \<Rightarrow> b) + rt_nonceOffset st,
      st\<lparr>rt_nonceOffset := Suc (rt_nonceOffset st)\<rparr>)"

definition resetNonceSequence_retry :: "nat option \<Rightarrow> retry_engine \<Rightarrow> retry_engine" where
  "resetNonceSequence_retry answer st =
     (let st1 = st\<lparr>rt_chainOps := rt_chainOps st @ [OpGetTransactionCount 0]\<rparr>
      in case answer of
           None \<Rightarrow> st1
         | Some n \<Rightarrow> st1\<lparr>rt_baseNonce := Some n, rt_nonceOffset := 0\<rparr>)"

text \<open>
  \<^verbatim>\<open>if (mintLog.tokens[tokenId] && mintLog.tokens[tokenId].status === 'pending')
  mintLog.summary.pending--\<close>, which the script runs after it has written the record.
\<close>

definition decrementPending :: "string \<Rightarrow> retry_engine \<Rightarrow> retry_engine" where
  "decrementPending tid st =
     (if (case rt_tokens st tid of None \<Rightarrow> False | Some r \<Rightarrow> rt_status r = ''pending'')
      then st\<lparr>rt_summary := (rt_summary st)\<lparr>pending := pending (rt_summary st) - 1\<rparr>\<rparr>
      else st)"

text \<open>An object literal with the token id and none of the other fields.\<close>

definition emptyRecord :: "string \<Rightarrow> retry_record" where
  "emptyRecord tid =
     \<lparr> rt_tokenId = tid, rt_status = [], rt_metadataUri = None, rt_txHash = None,
       rt_blockNumber = None, rt_gasUsed = None, rt_nonce = None, rt_error = None,
       rt_errorType = None, rt_retryCount = None, rt_note = None \<rparr>"

text \<open>
  \<^verbatim>\<open>mintSingleTokenOptimized(contract, tokenId, retryCount)\<close> of the retry script;
  \<open>env k\<close> is what the chain answers to the attempt with retry count \<open>k\<close>. The first
  statement of the \<^verbatim>\<open>try\<close> block returns \<^verbatim>\<open>true\<close> when the token's record is completed.
\<close>

function mintSingleTokenOptimized_retry ::
  "config \<Rightarrow> (nat \<Rightarrow> attempt_world) \<Rightarrow> string \<Rightarrow> nat \<Rightarrow> retry_engine \<Rightarrow> bool \<times> retry_engine"
where
  "mintSingleTokenOptimized_retry cfg env tid retryCount st =
     (if (case rt_tokens st tid of None \<Rightarrow> False | Some r \<Rightarrow> rt_status r = ''completed'')
      then (True, st)
      else
       (let uri = buildMetadataUri_retry tid;
            nonceValue = fst (getNextNonce_retry st);
            st1 = snd (getNextNonce_retry st);
            st2 = st1\<lparr>rt_chainOps := rt_chainOps st1 @ [OpEstimateGas 0, OpMintURI 0 nonceValue uri]\<rparr>
        in case a_send (env retryCount) of
             Inr rcpt \<Rightarrow>
               (True,
                decrementPending tid
                  (st2\<lparr>rt_tokens := (rt_tokens st2)(tid \<mapsto> (emptyRecord tid)
                          \<lparr>rt_status := ''completed'',
                           rt_metadataUri := Some uri,
                           rt_txHash := Some (r_hash rcpt),
                           rt_blockNumber := Some (r_blockNumber rcpt),
                           rt_gasUsed := Some (r_gasUsed rcpt),
                           rt_nonce := Some nonceValue\<rparr>),
                       rt_summary := (rt_summary st2)
                          \<lparr>successful := successful (rt_summary st2) + 1\<rparr>\<rparr>))
           | Inl msg \<Rightarrow>
               if classifyError_single msg = ALREADY_KNOWN then
                 (True,
                  decrementPending tid
                    (st2\<lparr>rt_tokens := (rt_tokens st2)(tid \<mapsto> (emptyRecord tid)
                            \<lparr>rt_status := ''completed'',
                             rt_metadataUri := Some (buildMetadataUri_retry tid),
                             rt_txHash := Some ''already_known'',
                             rt_note := Some ''Transaction already known''\<rparr>),
                         rt_summary := (rt_summary st2)
                            \<lparr>successful := successful (rt_summary st2) + 1\<rparr>\<rparr>))
               else
                 (let st3 = (if classifyError_single msg = NONCE_ERROR
                             then resetNonceSequence_retry (a_pending (env retryCount)) st2
                             else st2)
                  in if retryCount < RETRY_ATTEMPTS cfg
                     then mintSingleTokenOptimized_retry cfg env tid (Suc retryCount) st3
                     else
                       (False,
                        decrementPending tid
                          (st3\<lparr>rt_tokens := (rt_tokens st3)(tid \<mapsto> (emptyRecord tid)
                                  \<lparr>rt_status := ''failed'',
                                   rt_error := Some msg,
                                   rt_errorType := Some (classifyError_single msg),
                                   rt_retryCount := Some retryCount\<rparr>),
                               rt_summary := (rt_summary st3)
                                  \<lparr>failed := failed (rt_summary st3) + 1\<rparr>\<rparr>)))))"
  by pat_completeness auto
termination
  by (relation "measure (\<lambda>(cfg, env, tid, retryCount, st). RETRY_ATTEMPTS cfg - retryCount)") auto

declare mintSingleTokenOptimized_retry.simps [simp del]

text \<open>
  The states a run of the retry script passes through: the state before the first call,
  then the state after each call, the calls taken one after the other in the order of
  the ids; \<open>env k\<close> is the world of the \<open>k\<close>-th call. The list of ids is any list: the file
  may name an id twice.
\<close>

fun run_states_retry ::
  "config \<Rightarrow> (nat \<Rightarrow> nat \<Rightarrow> attempt_world) \<Rightarrow> nat \<Rightarrow> string list \<Rightarrow> retry_engine \<Rightarrow> retry_engine list"
where
  "run_states_retry cfg env k [] st = [st]"
| "run_states_retry cfg env k (tid # tids) st =
     st # run_states_retry cfg env (Suc k) tids
            (snd (mintSingleTokenOptimized_retry cfg (env k) tid 0 st))"




section \<open>Writing the log file\<close>

text \<open>
  Every save of the scripts is \<^verbatim>\<open>fs.writeJson(CONFIG.MINT_LOG_PATH, mintLog, {spaces: 2})\<close>.
  The function belongs to the library fs-extra, which serialises the object and passes the
  text to Node's \<^verbatim>\<open>fs.writeFile\<close> with the same path; that call opens the file with
  truncation and then writes the text. The disk is a map from paths to contents, the call
  a list of steps on it, and an interruption after \<open>k\<close> steps leaves the disk that the
  first \<open>k\<close> steps produce. \<open>stringify\<close> stands for \<^verbatim>\<open>JSON.stringify\<close>.
\<close>

type_synonym disk = "string \<rightharpoonup> string"

datatype fs_step = Truncate string | Append string char

fun stepPath :: "fs_step \<Rightarrow> string" where
  "stepPath (Truncate p) = p"
| "stepPath (Append p c) = p"

fun applyStep :: "disk \<Rightarrow> fs_step \<Rightarrow> disk" where
  "applyStep d (Truncate p) = d(p \<mapsto> [])"
| "applyStep d (Append p c) = d(p \<mapsto> (case d p of None \<Rightarrow> [] | Some text \<Rightarrow> text) @ [c])"

definition runSteps :: "fs_step list \<Rightarrow> disk \<Rightarrow> disk" where
  "runSteps steps d = foldl applyStep d steps"

definition writeFile :: "string \<Rightarrow> string \<Rightarrow> fs_step list" where
  "writeFile path text = Truncate path # map (Append path) text"

definition writeJson :: "(mint_log \<Rightarrow> string) \<Rightarrow> string \<Rightarrow> mint_log \<Rightarrow> fs_step list" where
  "writeJson stringify path obj = writeFile path (stringify obj)"

text \<open>The save at the end of \<^verbatim>\<open>processBatchOptimized\<close>.\<close>

definition snapshot :: "(mint_log \<Rightarrow> string) \<Rightarrow> config \<Rightarrow> engine \<Rightarrow> fs_step list" where
  "snapshot stringify cfg st = writeJson stringify (MINT_LOG_PATH cfg) (mintLog st)"

definition crashAfter :: "nat \<Rightarrow> fs_step list \<Rightarrow> disk \<Rightarrow> disk" where
  "crashAfter k steps d = runSteps (take k steps) d"

text \<open>For examples: a serialiser whose output is the given text.\<close>

definition stringifyAs :: "string \<Rightarrow> mint_log \<Rightarrow> string" where
  "stringifyAs text lg = text"

section \<open>Error classification: properties\<close>

lemma classifyError_known:
  "str_includes (toLowerCase m) ''already known''
      \<or> str_includes (toLowerCase m) ''transaction already exists''
   \<Longrightarrow> classifyError m = ALREADY_KNOWN"
  unfolding classifyError_def Let_def by (rule if_P)

lemma classifyError_single_known:
  "str_includes (toLowerCase m) ''already known''
      \<or> str_includes (toLowerCase m) ''transaction already exists''
   \<Longrightarrow> classifyError_single m = ALREADY_KNOWN"
  unfolding classifyError_single_def Let_def by (rule if_P)

lemma classifyError_nonce:
  "classifyError m = NONCE_ERROR
   \<Longrightarrow> str_includes (toLowerCase m) ''nonce''
        \<and> (str_includes (toLowerCase m) ''too low''
           \<or> str_includes (toLowerCase m) ''already been used'')"
  unfolding classifyError_def Let_def by (simp split: if_splits)

lemma classifyError_single_nonce:
  "classifyError_single m = NONCE_ERROR
   \<Longrightarrow> str_includes (toLowerCase m) ''nonce''
        \<and> (str_includes (toLowerCase m) ''too low''
           \<or> str_includes (toLowerCase m) ''already been used'')"
  unfolding classifyError_single_def Let_def by (simp split: if_splits)

lemma classifyError_unknown:
  "\<not> str_includes (toLowerCase m) ''already known'' \<Longrightarrow>
   \<not> str_includes (toLowerCase m) ''transaction already exists'' \<Longrightarrow>
   \<not> (str_includes (toLowerCase m) ''nonce''
           \<and> (str_includes (toLowerCase m) ''too low''
              \<or> str_includes (toLowerCase m) ''already been used'')) \<Longrightarrow>
   \<not> str_includes (toLowerCase m) ''timeout'' \<Longrightarrow>
   \<not> str_includes (toLowerCase m) ''econnreset'' \<Longrightarrow>
   \<not> str_includes (toLowerCase m) ''network'' \<Longrightarrow>
   \<not> str_includes (toLowerCase m) ''-32000'' \<Longrightarrow>
   \<not> str_includes (toLowerCase m) ''insufficient funds'' \<Longrightarrow>
   classifyError m = UNKNOWN_ERROR"
  unfolding classifyError_def Let_def by (simp only: if_False simp_thms)

lemma classifyError_single_unknown:
  "\<not> str_includes (toLowerCase m) ''already known'' \<Longrightarrow>
   \<not> str_includes (toLowerCase m) ''transaction already exists'' \<Longrightarrow>
   \<not> (str_includes (toLowerCase m) ''nonce''
           \<and> (str_includes (toLowerCase m) ''too low''
              \<or> str_includes (toLowerCase m) ''already been used'')) \<Longrightarrow>
   \<not> str_includes (toLowerCase m) ''timeout'' \<Longrightarrow>
   \<not> str_includes (toLowerCase m) ''econnreset'' \<Longrightarrow>
   \<not> str_includes (toLowerCase m) ''network'' \<Longrightarrow>
   \<not> str_includes (toLowerCase m) ''replacement transaction underpriced'' \<Longrightarrow>
   classifyError_single m = UNKNOWN_ERROR"
  unfolding classifyError_single_def Let_def by (simp only: if_False simp_thms)

lemma classifyError_lowercased:
  "toLowerCase m = toLowerCase m' \<Longrightarrow>
   classifyError m = classifyError m' \<and> classifyError_single m = classifyError_single m'"
  unfolding classifyError_def classifyError_single_def Let_def by (simp only:)

text \<open>
  Claim C10. The class of an error depends on the lower-cased message only and is found by
  a fixed order of tests. A message that mentions ''already known'' or ''transaction
  already exists'' is ALREADY_KNOWN whatever else it mentions; NONCE_ERROR is given only
  to a message that mentions ''nonce'' together with ''too low'' or ''already been
  used''; a message that matches none of the patterns is UNKNOWN_ERROR. This holds for
  the classifier of the multi-signer script and for that of the single-signer scripts.
\<close>

theorem classifyError_precedence:
  "(str_includes (toLowerCase m) ''already known''
      \<or> str_includes (toLowerCase m) ''transaction already exists''
    \<longrightarrow> classifyError m = ALREADY_KNOWN \<and> classifyError_single m = ALREADY_KNOWN)
   \<and> (classifyError m = NONCE_ERROR \<or> classifyError_single m = NONCE_ERROR
    \<longrightarrow> str_includes (toLowerCase m) ''nonce''
        \<and> (str_includes (toLowerCase m) ''too low''
           \<or> str_includes (toLowerCase m) ''already been used''))
   \<and> (\<not> str_includes (toLowerCase m) ''already known''
      \<and> \<not> str_includes (toLowerCase m) ''transaction already exists''
      \<and> \<not> (str_includes (toLowerCase m) ''nonce''
           \<and> (str_includes (toLowerCase m) ''too low''
              \<or> str_includes (toLowerCase m) ''already been used''))
      \<and> \<not> str_includes (toLowerCase m) ''timeout''
      \<and> \<not> str_includes (toLowerCase m) ''econnreset''
      \<and> \<not> str_includes (toLowerCase m) ''network''
    \<longrightarrow> (\<not> str_includes (toLowerCase m) ''-32000''
         \<and> \<not> str_includes (toLowerCase m) ''insufficient funds''
         \<longrightarrow> classifyError m = UNKNOWN_ERROR)
      \<and> (\<not> str_includes (toLowerCase m) ''replacement transaction underpriced''
         \<longrightarrow> classifyError_single m = UNKNOWN_ERROR))
   \<and> (toLowerCase m = toLowerCase m'
    \<longrightarrow> classifyError m = classifyError m' \<and> classifyError_single m = classifyError_single m')"
proof (intro conjI impI)
  assume "str_includes (toLowerCase m) ''already known''
      \<or> str_includes (toLowerCase m) ''transaction already exists''"
  then show "classifyError m = ALREADY_KNOWN" "classifyError_single m = ALREADY_KNOWN"
    by (rule classifyError_known, rule classifyError_single_known)
next
  assume a: "classifyError m = NONCE_ERROR \<or> classifyError_single m = NONCE_ERROR"
  then have b: "str_includes (toLowerCase m) ''nonce''
        \<and> (str_includes (toLowerCase m) ''too low''
           \<or> str_includes (toLowerCase m) ''already been used'')"
    using classifyError_nonce [of m] classifyError_single_nonce [of m] by (elim disjE)
  from b show "str_includes (toLowerCase m) ''nonce''" by (rule conjunct1)
  from b show "str_includes (toLowerCase m) ''too low''
           \<or> str_includes (toLowerCase m) ''already been used''" by (rule conjunct2)
next
  assume "\<not> str_includes (toLowerCase m) ''already known''
      \<and> \<not> str_includes (toLowerCase m) ''transaction already exists''
      \<and> \<not> (str_includes (toLowerCase m) ''nonce''
           \<and> (str_includes (toLowerCase m) ''too low''
              \<or> str_includes (toLowerCase m) ''already been used''))
      \<and> \<not> str_includes (toLowerCase m) ''timeout''
      \<and> \<not> str_includes (toLowerCase m) ''econnreset''
      \<and> \<not> str_includes (toLowerCase m) ''network''"
    and "\<not> str_includes (toLowerCase m) ''-32000''
         \<and> \<not> str_includes (toLowerCase m) ''insufficient funds''"
  then show "classifyError m = UNKNOWN_ERROR"
    by (elim conjE) (rule classifyError_unknown)
next
  assume "\<not> str_includes (toLowerCase m) ''already known''
      \<and> \<not> str_includes (toLowerCase m) ''transaction already exists''
      \<and> \<not> (str_includes (toLowerCase m) ''nonce''
           \<and> (str_includes (toLowerCase m) ''too low''
              \<or> str_includes (toLowerCase m) ''already been used''))
      \<and> \<not> str_includes (toLowerCase m) ''timeout''
      \<and> \<not> str_includes (toLowerCase m) ''econnreset''
      \<and> \<not> str_includes (toLowerCase m) ''network''"
    and "\<not> str_includes (toLowerCase m) ''replacement transaction underpriced''"
  then show "classifyError_single m = UNKNOWN_ERROR"
    by (elim conjE) (rule classifyError_single_unknown)
next
  assume "toLowerCase m = toLowerCase m'"
  then have "classifyError m = classifyError m' \<and> classifyError_single m = classifyError_single m'"
    by (rule classifyError_lowercased)
  then show "classifyError m = classifyError m'" "classifyError_single m = classifyError_single m'"
    by (rule conjunct1, rule conjunct2)
qed

theorem classifyError_precedence_witness:
  "classifyError ''Nonce too low: Transaction ALREADY KNOWN (network timeout)'' = ALREADY_KNOWN
   \<and> classifyError_single ''Nonce too low: Transaction ALREADY KNOWN (network timeout)''
       = ALREADY_KNOWN
   \<and> classifyError ''execution reverted'' = UNKNOWN_ERROR
   \<and> classifyError_single ''execution reverted'' = UNKNOWN_ERROR
   \<and> classifyError ''NONCE TOO LOW'' = classifyError ''nonce too low''"
proof -
  have a: "str_includes (toLowerCase ''Nonce too low: Transaction ALREADY KNOWN (network timeout)'')
             ''already known''"
    by (simp add: toLowerCase_def toLowerChar_def str_includes_def sublist_code)
  have b: "toLowerCase ''execution reverted'' = ''execution reverted''"
    by (simp add: toLowerCase_def toLowerChar_def)
  have c: "\<not> str_includes ''execution reverted'' ''already known''"
    "\<not> str_includes ''execution reverted'' ''transaction already exists''"
    "\<not> str_includes ''execution reverted'' ''nonce''"
    "\<not> str_includes ''execution reverted'' ''timeout''"
    "\<not> str_includes ''execution reverted'' ''econnreset''"
    "\<not> str_includes ''execution reverted'' ''network''"
    "\<not> str_includes ''execution reverted'' ''-32000''"
    "\<not> str_includes ''execution reverted'' ''insufficient funds''"
    "\<not> str_includes ''execution reverted'' ''replacement transaction underpriced''"
    by (simp_all add: str_includes_def sublist_code)
  have d: "toLowerCase ''NONCE TOO LOW'' = toLowerCase ''nonce too low''"
    by (simp add: toLowerCase_def toLowerChar_def)
  note t1 = classifyError_precedence
              [of "''Nonce too low: Transaction ALREADY KNOWN (network timeout)''" "[]"]
  note t2 = classifyError_precedence [of "''execution reverted''" "[]", unfolded b]
  note t3 = classifyError_precedence [of "''NONCE TOO LOW''" "''nonce too low''"]
  have k: "classifyError ''Nonce too low: Transaction ALREADY KNOWN (network timeout)''
             = ALREADY_KNOWN
           \<and> classifyError_single ''Nonce too low: Transaction ALREADY KNOWN (network timeout)''
             = ALREADY_KNOWN"
    by (rule mp [OF conjunct1 [OF t1]]) (rule disjI1, rule a)
  have u: "classifyError ''execution reverted'' = UNKNOWN_ERROR
           \<and> classifyError_single ''execution reverted'' = UNKNOWN_ERROR"
    using conjunct1 [OF conjunct2 [OF conjunct2 [OF t2]]] c by (simp only: simp_thms)
  have e: "classifyError ''NONCE TOO LOW'' = classifyError ''nonce too low''"
    by (rule conjunct1 [OF mp [OF conjunct2 [OF conjunct2 [OF conjunct2 [OF t3]]] d]])
  from k u e show ?thesis by (simp only: simp_thms)
qed

section \<open>The pending ids\<close>






lemma pendingTokens_set:
  "set (pendingTokens cfg toks) =
     {tid. START_TOKEN_ID cfg \<le> tid \<and> tid \<le> END_TOKEN_ID cfg
           \<and> (toks tid = None
               \<or> (\<exists>r. toks tid = Some r \<and> (status r = ''pending'' \<or> status r = ''failed'')))}"
  unfolding pendingTokens_def by (auto simp del: upt_Suc split: option.splits)


lemma pendingTokens_single_fresh:
  "pendingTokens_single (sl_entries (loadExistingProgress_single cfg None))
     = [START_TOKEN_ID cfg ..< Suc (END_TOKEN_ID cfg)]"
proof -
  have "filter (\<lambda>(tokenId, data). status data = ''pending'' \<or> status data = ''failed'')
          (map (\<lambda>tid. (tid, precreated tid)) xs) = map (\<lambda>tid. (tid, precreated tid)) xs" for xs
    by (induction xs) (simp_all add: precreated_def newTokenRecord_def)
  then show ?thesis
    by (simp add: pendingTokens_single_def loadExistingProgress_single_def comp_def
          sorted_sort_id del: upt_Suc)
qed

lemma startEngine_fresh:
  "START_TOKEN_ID cfg \<le> tid \<Longrightarrow> tid \<le> END_TOKEN_ID cfg \<Longrightarrow>
   s_tokens (startEngine (loadExistingProgress_single cfg None)) tid = Some (precreated tid)"
  by (simp add: startEngine_def loadExistingProgress_single_def map_of_map_restrict
           del: upt_Suc)



text \<open>
  A log of the single-signer script that holds the completed record of token 200001 and
  nothing else: token 200002 is in the range and has no record, and it is not queued,
  while the loop of the multi-signer script would queue it.
\<close>

theorem pendingTokens_exact_counterexample:
  "START_TOKEN_ID CONFIG_single \<le> 200002 \<and> 200002 \<le> END_TOKEN_ID CONFIG_single
   \<and> map_of [(200001::nat, (precreated 200001)\<lparr>status := ''completed''\<rparr>)] (200002::nat)
       = None
   \<and> 200002 \<notin> set (pendingTokens_single
                        [(200001, (precreated 200001)\<lparr>status := ''completed''\<rparr>)])
   \<and> 200002 \<in> set (pendingTokens CONFIG_single
                       (map_of [(200001, (precreated 200001)\<lparr>status := ''completed''\<rparr>)]))"
  by (simp add: CONFIG_single_def pendingTokens_single_def pendingTokens_set)


section \<open>Resuming\<close>

lemma pendingTokens_empty:
  assumes "\<forall>tid. START_TOKEN_ID cfg \<le> tid \<and> tid \<le> END_TOKEN_ID cfg \<longrightarrow> isCompleted toks tid"
  shows "pendingTokens cfg toks = []"
  unfolding pendingTokens_def filter_empty_conv 
  using assms by (auto simp: isCompleted_def simp del: upt_Suc split: option.splits)

lemma pendingTokens_single_empty:
  assumes "\<forall>e \<in> set entries. status (snd e) = ''completed''"
  shows "pendingTokens_single entries = []"
proof -
  have "filter (\<lambda>(tokenId, data). status data = ''pending'' \<or> status data = ''failed'')
          entries = []"
    unfolding filter_empty_conv using assms by auto
  then show ?thesis by (simp add: pendingTokens_single_def)
qed

lemma main_single_done:
  assumes "\<forall>e \<in> set (sl_entries lg). status (snd e) = ''completed''"
  shows "main_single cfg (Some lg) network_ok answer env resets = Some (startEngine lg, [])"
  using pendingTokens_single_empty [OF assms]
  by (simp add: main_single_def loadExistingProgress_single_def Let_def)

text \<open>
  Claim C2. Resuming is idempotent. The pending ids are a function of the record map
  alone, so computing them again on an unchanged map gives the same sequence; and when
  every id of the range has a completed record, nothing is pending and the main function
  returns at once with the loaded log unchanged: no chain call is issued, no transaction
  is sent and no file is written. The last part is the same for the single-signer
  script, whose main function returns at once when every record of the log is completed.
\<close>

theorem resume_idempotent:
  "(tokens st = tokens st' \<longrightarrow> pendingTokens cfg (tokens st) = pendingTokens cfg (tokens st'))
   \<and> ((\<forall>tid. START_TOKEN_ID cfg \<le> tid \<and> tid \<le> END_TOKEN_ID cfg
             \<longrightarrow> isCompleted (log_tokens lg) tid)
       \<longrightarrow> pendingTokens cfg (log_tokens lg) = []
         \<and> main cfg (Some lg) now network_ok ws
             = Some (Inr (loadExistingProgress (Some lg), []))
         \<and> tokens (loadExistingProgress (Some lg)) = log_tokens lg
         \<and> chainOps (loadExistingProgress (Some lg)) = [])
   \<and> ((\<forall>e \<in> set (sl_entries slg). status (snd e) = ''completed'')
       \<longrightarrow> pendingTokens_single (sl_entries slg) = []
         \<and> main_single cfg (Some slg) network_ok answer env resets
             = Some (startEngine slg, [])
         \<and> s_tokens (startEngine slg) = map_of (sl_entries slg)
         \<and> s_chainOps (startEngine slg) = [])"
proof (intro conjI impI)
  assume "tokens st = tokens st'"
  then show "pendingTokens cfg (tokens st) = pendingTokens cfg (tokens st')" by (simp only:)
next
  assume a: "\<forall>tid. START_TOKEN_ID cfg \<le> tid \<and> tid \<le> END_TOKEN_ID cfg
             \<longrightarrow> isCompleted (log_tokens lg) tid"
  then show e: "pendingTokens cfg (log_tokens lg) = []" by (rule pendingTokens_empty)
  show t: "tokens (loadExistingProgress (Some lg)) = log_tokens lg"
    and "chainOps (loadExistingProgress (Some lg)) = []"
    by (simp_all add: loadExistingProgress_def)
  show "main cfg (Some lg) now network_ok ws = Some (Inr (loadExistingProgress (Some lg), []))"
    unfolding main_def Let_def t e by simp
next
  assume a: "\<forall>e \<in> set (sl_entries slg). status (snd e) = ''completed''"
  then show "pendingTokens_single (sl_entries slg) = []" by (rule pendingTokens_single_empty)
  from a show "main_single cfg (Some slg) network_ok answer env resets
                 = Some (startEngine slg, [])"
    by (rule main_single_done)
  show "s_tokens (startEngine slg) = map_of (sl_entries slg)"
    and "s_chainOps (startEngine slg) = []"
    by (simp_all add: startEngine_def)
qed

theorem resume_idempotent_witness:
  "main ((CONFIG [''0xA''])\<lparr>START_TOKEN_ID := 1, END_TOKEN_ID := 2\<rparr>)
        (Some \<lparr> log_tokens = [(1::nat) \<mapsto> (newTokenRecord 1)\<lparr>status := ''completed''\<rparr>,
                               2 \<mapsto> (newTokenRecord 2)\<lparr>status := ''completed''\<rparr>],
                 log_summary = \<lparr> total = 2, successful = 2, failed = 0, pending = 0 \<rparr>,
                 log_signerStats = [] \<rparr>) 1000 True []
     = Some (Inr (\<lparr> tokens = [(1::nat) \<mapsto> (newTokenRecord 1)\<lparr>status := ''completed''\<rparr>,
                             2 \<mapsto> (newTokenRecord 2)\<lparr>status := ''completed''\<rparr>],
                    summary = \<lparr> total = 2, successful = 2, failed = 0, pending = 0 \<rparr>,
                    signerStates = [], chainOps = [] \<rparr>, []))
   \<and> main_single (CONFIG_single\<lparr>START_TOKEN_ID := 1, END_TOKEN_ID := 2\<rparr>)
        (Some \<lparr> sl_entries = [(1, (precreated 1)\<lparr>status := ''completed''\<rparr>),
                               (2, (precreated 2)\<lparr>status := ''completed''\<rparr>)],
                 sl_summary = \<lparr> total = 2, successful = 2, failed = 0, pending = 0 \<rparr> \<rparr>)
        True (Some 7) revertedOnce (\<lambda>n. None)
     = Some (\<lparr> s_tokens = [(1::nat) \<mapsto> (precreated 1)\<lparr>status := ''completed''\<rparr>,
                           2 \<mapsto> (precreated 2)\<lparr>status := ''completed''\<rparr>],
               s_summary = \<lparr> total = 2, successful = 2, failed = 0, pending = 0 \<rparr>,
               baseNonce = None, nonceOffset = 0, s_chainOps = [] \<rparr>, [])"
proof -
  let ?cfg = "(CONFIG [''0xA''])\<lparr>START_TOKEN_ID := 1, END_TOKEN_ID := 2\<rparr>"
  let ?lg = "\<lparr> log_tokens = [(1::nat) \<mapsto> (newTokenRecord 1)\<lparr>status := ''completed''\<rparr>,
                               2 \<mapsto> (newTokenRecord 2)\<lparr>status := ''completed''\<rparr>],
              log_summary = \<lparr> total = 2, successful = 2, failed = 0, pending = 0 \<rparr>,
              log_signerStats = [] \<rparr>"
  let ?scfg = "CONFIG_single\<lparr>START_TOKEN_ID := 1, END_TOKEN_ID := 2\<rparr>"
  let ?slg = "\<lparr> sl_entries = [(1::nat, (precreated 1)\<lparr>status := ''completed''\<rparr>),
                               (2, (precreated 2)\<lparr>status := ''completed''\<rparr>)],
               sl_summary = \<lparr> total = 2, successful = 2, failed = 0, pending = 0 \<rparr> \<rparr>"
  have r: "START_TOKEN_ID ?cfg \<le> tid \<and> tid \<le> END_TOKEN_ID ?cfg \<longleftrightarrow> tid = 1 \<or> tid = 2"
    for tid
    by (auto simp: CONFIG_def)
  have h: "\<forall>tid. START_TOKEN_ID ?cfg \<le> tid \<and> tid \<le> END_TOKEN_ID ?cfg
             \<longrightarrow> isCompleted (log_tokens ?lg) tid"
    unfolding r by (auto simp: isCompleted_def newTokenRecord_def)
  from resume_idempotent [of _ _ ?cfg ?lg 1000 True "[]"] h
  have "main ?cfg (Some ?lg) 1000 True [] = Some (Inr (loadExistingProgress (Some ?lg), []))"
    by blast
  then have 1: "main ?cfg (Some ?lg) 1000 True []
     = Some (Inr (\<lparr> tokens = [(1::nat) \<mapsto> (newTokenRecord 1)\<lparr>status := ''completed''\<rparr>,
                             2 \<mapsto> (newTokenRecord 2)\<lparr>status := ''completed''\<rparr>],
                    summary = \<lparr> total = 2, successful = 2, failed = 0, pending = 0 \<rparr>,
                    signerStates = [], chainOps = [] \<rparr>, []))"
    by (simp add: loadExistingProgress_def)
  have k: "\<forall>e \<in> set (sl_entries ?slg). status (snd e) = ''completed''"
    by simp
  from mp [OF conjunct2 [OF conjunct2 [OF resume_idempotent
             [where slg = ?slg and cfg = ?scfg and network_ok = True and answer = "Some 7"
                and env = revertedOnce and resets = "\<lambda>n. None"]]] k]
  have "main_single ?scfg (Some ?slg) True (Some 7) revertedOnce (\<lambda>n. None)
          = Some (startEngine ?slg, [])"
    by blast
  then have 2: "main_single ?scfg (Some ?slg) True (Some 7) revertedOnce (\<lambda>n. None)
     = Some (\<lparr> s_tokens = [(1::nat) \<mapsto> (precreated 1)\<lparr>status := ''completed''\<rparr>,
                           2 \<mapsto> (precreated 2)\<lparr>status := ''completed''\<rparr>],
               s_summary = \<lparr> total = 2, successful = 2, failed = 0, pending = 0 \<rparr>,
               baseNonce = None, nonceOffset = 0, s_chainOps = [] \<rparr>, [])"
    by (simp add: startEngine_def fun_upd_twist)
  from 1 2 show ?thesis by (rule conjI)
qed

section \<open>Signer pool: properties\<close>

lemma oldestSignerIndex_Some:
  assumes "oldestSignerIndex ss = Some i"
  shows "i < length ss \<and> \<not> isBackedOff (ss ! i)"
proof -
  let ?c = "filter (\<lambda>i. \<not> isBackedOff (ss ! i)) [0 ..< length ss]"
  from assms obtain rest where e: "sort_key (\<lambda>i. lastUsed (ss ! i)) ?c = i # rest"
    by (auto simp: oldestSignerIndex_def split: list.splits)
  have "i \<in> set (sort_key (\<lambda>i. lastUsed (ss ! i)) ?c)"
    unfolding e by simp
  then have "i \<in> set ?c" by (simp only: set_sort)
  then show ?thesis by simp
qed

lemma oldestSignerIndex_None:
  "oldestSignerIndex ss = None \<longleftrightarrow> (\<forall>i < length ss. isBackedOff (ss ! i))"
proof -
  let ?c = "filter (\<lambda>i. \<not> isBackedOff (ss ! i)) [0 ..< length ss]"
  have "oldestSignerIndex ss = None \<longleftrightarrow> sort_key (\<lambda>i. lastUsed (ss ! i)) ?c = []"
    by (simp add: oldestSignerIndex_def split: list.splits)
  also have "\<dots> \<longleftrightarrow> ?c = []"
    by (metis length_sort length_0_conv)
  also have "\<dots> \<longleftrightarrow> (\<forall>i < length ss. isBackedOff (ss ! i))"
    by (auto simp: filter_empty_conv)
  finally show ?thesis .
qed

lemma signerLoop_None:
  "oldestSignerIndex ss = None \<Longrightarrow> signerLoop k now ss = (None, ss)"
proof (induction k now ss rule: signerLoop.induct)
  case (1 tries now ss)
  show ?case
  proof (cases "tries < length ss")
    case True
    with 1 show ?thesis by (subst signerLoop.simps) simp
  next
    case False
    then show ?thesis by (subst signerLoop.simps) simp
  qed
qed

lemma signerLoop_0:
  "signerLoop 0 now ss =
     (case oldestSignerIndex ss of
        Some i \<Rightarrow> (Some i, ss[i := (ss ! i)\<lparr>lastUsed := now\<rparr>])
      | None \<Rightarrow> (None, ss))"
proof (cases "oldestSignerIndex ss")
  case None
  then show ?thesis by (simp add: signerLoop_None)
next
  case (Some i)
  then have "0 < length ss" using oldestSignerIndex_Some by fastforce
  with Some show ?thesis by (subst signerLoop.simps) simp
qed

lemma getNextAvailableSigner_eq:
  "getNextAvailableSigner now ss =
     (case oldestSignerIndex (map (reactivate now) ss) of
        Some i \<Rightarrow> (Some i, (map (reactivate now) ss)
                             [i := (reactivate now (ss ! i))\<lparr>lastUsed := now\<rparr>])
      | None \<Rightarrow> (None, map (reactivate now) ss))"
proof (cases "oldestSignerIndex (map (reactivate now) ss)")
  case None
  then show ?thesis by (simp add: getNextAvailableSigner_def signerLoop_0)
next
  case (Some i)
  then have "i < length ss" using oldestSignerIndex_Some by fastforce
  with Some show ?thesis by (simp add: getNextAvailableSigner_def signerLoop_0)
qed

lemma selectable_iff: "selectable now s \<longleftrightarrow> \<not> isBackedOff s \<or> backoffUntil s < now"
  by (simp add: selectable_def reactivate_def)

lemma getNextAvailableSigner_Some:
  assumes "getNextAvailableSigner now ss = (Some i, ss')"
  shows "i < length ss \<and> selectable now (ss ! i) \<and> length ss' = length ss"
proof -
  from assms have o: "oldestSignerIndex (map (reactivate now) ss) = Some i"
    and s: "ss' = (map (reactivate now) ss)[i := (reactivate now (ss ! i))\<lparr>lastUsed := now\<rparr>]"
    by (auto simp: getNextAvailableSigner_eq split: option.splits)
  from oldestSignerIndex_Some [OF o]
  have i: "i < length ss" by simp
  from oldestSignerIndex_Some [OF o] i
  have n: "\<not> isBackedOff (reactivate now (ss ! i))" by simp
  from n have "selectable now (ss ! i)"
    by (simp add: selectable_def)
  with i s show ?thesis by simp
qed

lemma getNextAvailableSigner_None:
  "fst (getNextAvailableSigner now ss) = None
     \<longleftrightarrow> (\<forall>i < length ss. \<not> selectable now (ss ! i))"
proof -
  have "fst (getNextAvailableSigner now ss) = None
          \<longleftrightarrow> oldestSignerIndex (map (reactivate now) ss) = None"
    by (simp add: getNextAvailableSigner_eq split: option.splits)
  then show ?thesis
    by (simp add: oldestSignerIndex_None selectable_def)
qed

lemma getNextAvailableSigner_None_state:
  "getNextAvailableSigner now ss = (None, ss') \<Longrightarrow> ss' = map (reactivate now) ss"
  by (auto simp: getNextAvailableSigner_eq split: option.splits)

lemma handleSignerFailure_backoff:
  assumes "handleSignerFailure cfg i now st = Inr st'"
    and "SIGNER_BACKOFF_THRESHOLD cfg \<le> Suc (consecutiveFailures (signerStates st ! i))"
  shows "i < length (signerStates st')
         \<and> isBackedOff (signerStates st' ! i)
         \<and> backoffUntil (signerStates st' ! i) = now + SIGNER_BACKOFF_DURATION cfg"
  using assms by (auto simp: handleSignerFailure_def Let_def split: if_splits)

lemma handleSignerSuccess_resets:
  "handleSignerSuccess i st = Inr st' \<Longrightarrow> consecutiveFailures (signerStates st' ! i) = 0"
  by (auto simp: handleSignerSuccess_def Let_def split: if_splits)

text \<open>
  Claim C5, as the code has it. A signer is selectable by \<^verbatim>\<open>getNextAvailableSigner\<close>
  exactly when it is not flagged as backed off or the clock is strictly past
  \<^verbatim>\<open>backoffUntil\<close>; the signer handed out is selectable, and none is handed out exactly
  when none is selectable. When \<^verbatim>\<open>handleSignerFailure\<close> brings \<^verbatim>\<open>consecutiveFailures\<close>
  to the threshold, the signer is flagged, \<^verbatim>\<open>backoffUntil\<close> becomes now plus the backoff
  duration, and the signer is not handed out at any time up to and including that moment.
  \<^verbatim>\<open>consecutiveFailures\<close> is 0 after the reactivation that ends a backoff and after
  \<^verbatim>\<open>handleSignerSuccess\<close>.
\<close>

theorem signer_backoff:
  "(selectable now s \<longleftrightarrow> \<not> isBackedOff s \<or> backoffUntil s < now)
   \<and> (getNextAvailableSigner now ss = (Some i, ss')
        \<longrightarrow> i < length ss \<and> selectable now (ss ! i))
   \<and> (fst (getNextAvailableSigner now ss) = None
        \<longleftrightarrow> (\<forall>j < length ss. \<not> selectable now (ss ! j)))
   \<and> (handleSignerFailure cfg i now st = Inr st'
      \<and> SIGNER_BACKOFF_THRESHOLD cfg \<le> Suc (consecutiveFailures (signerStates st ! i))
        \<longrightarrow> isBackedOff (signerStates st' ! i)
          \<and> backoffUntil (signerStates st' ! i) = now + SIGNER_BACKOFF_DURATION cfg
          \<and> (\<forall>later \<le> now + SIGNER_BACKOFF_DURATION cfg.
                fst (getNextAvailableSigner later (signerStates st')) \<noteq> Some i))
   \<and> (isBackedOff s \<and> backoffUntil s < now
        \<longrightarrow> \<not> isBackedOff (reactivate now s) \<and> consecutiveFailures (reactivate now s) = 0)
   \<and> (handleSignerSuccess i st = Inr st'
        \<longrightarrow> consecutiveFailures (signerStates st' ! i) = 0)"
proof (intro conjI impI allI)
  show "selectable now s \<longleftrightarrow> \<not> isBackedOff s \<or> backoffUntil s < now"
    by (rule selectable_iff)
next
  assume "getNextAvailableSigner now ss = (Some i, ss')"
  then have "i < length ss \<and> selectable now (ss ! i) \<and> length ss' = length ss"
    by (rule getNextAvailableSigner_Some)
  then show "i < length ss" "selectable now (ss ! i)"
    by simp_all
next
  show "fst (getNextAvailableSigner now ss) = None
        \<longleftrightarrow> (\<forall>j < length ss. \<not> selectable now (ss ! j))"
    by (rule getNextAvailableSigner_None)
next
  assume a: "handleSignerFailure cfg i now st = Inr st'
      \<and> SIGNER_BACKOFF_THRESHOLD cfg \<le> Suc (consecutiveFailures (signerStates st ! i))"
  then have b: "i < length (signerStates st')
         \<and> isBackedOff (signerStates st' ! i)
         \<and> backoffUntil (signerStates st' ! i) = now + SIGNER_BACKOFF_DURATION cfg"
    using handleSignerFailure_backoff [of cfg i now st st'] by simp
  then show "isBackedOff (signerStates st' ! i)"
    "backoffUntil (signerStates st' ! i) = now + SIGNER_BACKOFF_DURATION cfg"
    by simp_all
  fix later
  assume l: "later \<le> now + SIGNER_BACKOFF_DURATION cfg"
  show "fst (getNextAvailableSigner later (signerStates st')) \<noteq> Some i"
  proof
    assume "fst (getNextAvailableSigner later (signerStates st')) = Some i"
    then obtain ss2 where "getNextAvailableSigner later (signerStates st') = (Some i, ss2)"
      by (cases "getNextAvailableSigner later (signerStates st')") simp
    then have "i < length (signerStates st') \<and> selectable later (signerStates st' ! i)
                 \<and> length ss2 = length (signerStates st')"
      by (rule getNextAvailableSigner_Some)
    then have "selectable later (signerStates st' ! i)" by simp
    with b l show False by (simp add: selectable_iff)
  qed
next
  assume "isBackedOff s \<and> backoffUntil s < now"
  then show "\<not> isBackedOff (reactivate now s)" "consecutiveFailures (reactivate now s) = 0"
    by (simp_all add: reactivate_def)
next
  assume "handleSignerSuccess i st = Inr st'"
  then show "consecutiveFailures (signerStates st' ! i) = 0"
    by (rule handleSignerSuccess_resets)
qed

theorem signer_backoff_witness:
  "isBackedOff (signerStates (projr (handleSignerFailure
       ((CONFIG [''0xA''])\<lparr>SIGNER_BACKOFF_THRESHOLD := 1\<rparr>) 0 2000
       (initializeBlockchain (CONFIG [''0xA'']) 1000 True (loadExistingProgress None)))) ! 0)
   \<and> fst (getNextAvailableSigner 32000 (signerStates (projr (handleSignerFailure
       ((CONFIG [''0xA''])\<lparr>SIGNER_BACKOFF_THRESHOLD := 1\<rparr>) 0 2000
       (initializeBlockchain (CONFIG [''0xA'']) 1000 True (loadExistingProgress None))))))
       \<noteq> Some 0
   \<and> selectable 32001 (signerStates (projr (handleSignerFailure
       ((CONFIG [''0xA''])\<lparr>SIGNER_BACKOFF_THRESHOLD := 1\<rparr>) 0 2000
       (initializeBlockchain (CONFIG [''0xA'']) 1000 True (loadExistingProgress None)))) ! 0)
   \<and> consecutiveFailures (reactivate 32001 (signerStates (projr (handleSignerFailure
       ((CONFIG [''0xA''])\<lparr>SIGNER_BACKOFF_THRESHOLD := 1\<rparr>) 0 2000
       (initializeBlockchain (CONFIG [''0xA'']) 1000 True (loadExistingProgress None)))) ! 0))
       = 0
   \<and> consecutiveFailures (signerStates (projr (handleSignerSuccess 0
       (initializeBlockchain (CONFIG [''0xA'']) 1000 True (loadExistingProgress None)))) ! 0)
       = 0"
proof -
  let ?cfg = "(CONFIG [''0xA''])\<lparr>SIGNER_BACKOFF_THRESHOLD := 1\<rparr>"
  let ?st0 = "initializeBlockchain (CONFIG [''0xA'']) 1000 True (loadExistingProgress None)"
  let ?st1 = "projr (handleSignerFailure ?cfg 0 2000 ?st0)"
  let ?st2 = "projr (handleSignerSuccess 0 ?st0)"
  have f: "handleSignerFailure ?cfg 0 2000 ?st0 = Inr ?st1
           \<and> SIGNER_BACKOFF_THRESHOLD ?cfg \<le> Suc (consecutiveFailures (signerStates ?st0 ! 0))"
    by (simp add: handleSignerFailure_def initializeBlockchain_def loadExistingProgress_def
          CONFIG_def)
  have d: "now + SIGNER_BACKOFF_DURATION ?cfg = now + 30000" for now
    by (simp add: CONFIG_def)
  have b: "isBackedOff (signerStates ?st1 ! 0) \<and> backoffUntil (signerStates ?st1 ! 0) = 32000
           \<and> consecutiveFailures (signerStates ?st1 ! 0) = 1"
    by (simp add: handleSignerFailure_def initializeBlockchain_def loadExistingProgress_def
          CONFIG_def)
  have g: "getNextAvailableSigner 32001 (signerStates ?st1)
             = (Some 0, snd (getNextAvailableSigner 32001 (signerStates ?st1)))"
    by (simp add: handleSignerFailure_def initializeBlockchain_def loadExistingProgress_def
          CONFIG_def getNextAvailableSigner_def signerLoop.simps oldestSignerIndex_def
          reactivate_def)
  have s: "handleSignerSuccess 0 ?st0 = Inr ?st2"
    by (simp add: handleSignerSuccess_def initializeBlockchain_def loadExistingProgress_def
          CONFIG_def)
  note t1 = signer_backoff [of 2000 _ _ 0 _ ?cfg ?st0 ?st1]
  note t2 = signer_backoff
    [of 32001 "signerStates ?st1 ! 0" "signerStates ?st1" 0
        "snd (getNextAvailableSigner 32001 (signerStates ?st1))" ?cfg ?st0 ?st2]
  from t1 f have c1: "isBackedOff (signerStates ?st1 ! 0)
      \<and> (\<forall>later \<le> 2000 + SIGNER_BACKOFF_DURATION ?cfg.
            fst (getNextAvailableSigner later (signerStates ?st1)) \<noteq> Some 0)"
    by blast
  then have c2: "fst (getNextAvailableSigner 32000 (signerStates ?st1)) \<noteq> Some 0"
    unfolding d by simp
  from t2 g have c3: "selectable 32001 (signerStates ?st1 ! 0)" by blast
  from t2 b have c4: "consecutiveFailures (reactivate 32001 (signerStates ?st1 ! 0)) = 0"
    by simp
  from t2 s have c5: "consecutiveFailures (signerStates ?st2 ! 0) = 0" by blast
  from c1 c2 c3 c4 c5 show ?thesis by blast
qed


text \<open>
  At the very moment \<^verbatim>\<open>backoffUntil\<close> a backed-off signer is not yet handed out: the third
  failure at time 1000 sets \<^verbatim>\<open>backoffUntil\<close> to 31000, and the pool gives no signer at
  31000 and the signer at 31001.
\<close>

theorem signer_backoff_counterexample:
  "handleSignerFailure (CONFIG [''0xA'']) 0 1000
     \<lparr> tokens = Map.empty,
       summary = \<lparr> total = 1, successful = 0, failed = 0, pending = 1 \<rparr>,
       signerStates = [\<lparr> consecutiveFailures = 2, isBackedOff = False, backoffUntil = 0,
                         totalMinted = 0, totalFailed = 2, lastUsed = 900,
                         stats = \<lparr> address = ''0xA'', minted = 0, stats_failed = 2,
                                   backedOff = 0 \<rparr> \<rparr>],
       chainOps = [] \<rparr>
   = Inr \<lparr> tokens = Map.empty,
           summary = \<lparr> total = 1, successful = 0, failed = 0, pending = 1 \<rparr>,
           signerStates = [\<lparr> consecutiveFailures = 3, isBackedOff = True, backoffUntil = 31000,
                             totalMinted = 0, totalFailed = 3, lastUsed = 900,
                             stats = \<lparr> address = ''0xA'', minted = 0, stats_failed = 3,
                                       backedOff = 1 \<rparr> \<rparr>],
           chainOps = [] \<rparr>
   \<and> fst (getNextAvailableSigner 31000
            [\<lparr> consecutiveFailures = 3, isBackedOff = True, backoffUntil = 31000,
               totalMinted = 0, totalFailed = 3, lastUsed = 900,
               stats = \<lparr> address = ''0xA'', minted = 0, stats_failed = 3,
                         backedOff = 1 \<rparr> \<rparr>]) = None
   \<and> fst (getNextAvailableSigner 31001
            [\<lparr> consecutiveFailures = 3, isBackedOff = True, backoffUntil = 31000,
               totalMinted = 0, totalFailed = 3, lastUsed = 900,
               stats = \<lparr> address = ''0xA'', minted = 0, stats_failed = 3,
                         backedOff = 1 \<rparr> \<rparr>]) = Some 0"
  by (simp add: handleSignerFailure_def CONFIG_def getNextAvailableSigner_def
        signerLoop.simps oldestSignerIndex_def reactivate_def)


section \<open>One attempt: what the try and catch blocks do\<close>

lemma handleSignerSuccess_fields:
  "handleSignerSuccess i st = Inr st' \<Longrightarrow>
   tokens st' = tokens st \<and> summary st' = summary st \<and> chainOps st' = chainOps st
   \<and> length (signerStates st') = length (signerStates st)"
  by (auto simp: handleSignerSuccess_def Let_def split: if_splits)

lemma handleSignerSuccess_ok:
  "i < length (signerStates st) \<Longrightarrow> \<exists>st'. handleSignerSuccess i st = Inr st'"
  by (simp add: handleSignerSuccess_def Let_def)

lemma handleSignerSuccess_others:
  "handleSignerSuccess i st = Inr st' \<Longrightarrow> j \<noteq> i \<Longrightarrow>
   signerStates st' ! j = signerStates st ! j"
  by (auto simp: handleSignerSuccess_def Let_def split: if_splits)

lemma handleSignerSuccess_backoff:
  "handleSignerSuccess i st = Inr st' \<Longrightarrow>
   isBackedOff (signerStates st' ! j) = isBackedOff (signerStates st ! j)"
  by (cases "j = i") (auto simp: handleSignerSuccess_def Let_def split: if_splits)

lemma handleSignerFailure_fields:
  "handleSignerFailure cfg i now st = Inr st' \<Longrightarrow>
   tokens st' = tokens st \<and> summary st' = summary st \<and> chainOps st' = chainOps st
   \<and> length (signerStates st') = length (signerStates st)"
  by (auto simp: handleSignerFailure_def Let_def split: if_splits)

lemma handleSignerFailure_ok:
  "i < length (signerStates st) \<Longrightarrow> \<exists>st'. handleSignerFailure cfg i now st = Inr st'"
  by (simp add: handleSignerFailure_def Let_def)

lemma handleSignerFailure_others:
  "handleSignerFailure cfg i now st = Inr st' \<Longrightarrow> j \<noteq> i \<Longrightarrow>
   signerStates st' ! j = signerStates st ! j"
  by (auto simp: handleSignerFailure_def Let_def split: if_splits)

lemma handleSignerFailure_flag:
  "handleSignerFailure cfg i now st = Inr st' \<Longrightarrow>
   isBackedOff (signerStates st' ! i)
     = (isBackedOff (signerStates st ! i)
        \<or> SIGNER_BACKOFF_THRESHOLD cfg \<le> Suc (consecutiveFailures (signerStates st ! i)))"
  by (auto simp: handleSignerFailure_def Let_def split: if_splits)

lemma beginAttempt_fields:
  "chainOps (beginAttempt tid st) = chainOps st"
  "signerStates (beginAttempt tid st) = signerStates st"
  "summary (beginAttempt tid st) = summary st"
  "t \<noteq> tid \<Longrightarrow> tokens (beginAttempt tid st) t = tokens st t"
  "tokens (beginAttempt tid st) tid =
     Some ((case tokens st tid of None \<Rightarrow> newTokenRecord tid | Some r \<Rightarrow> r)
            \<lparr>attempts := js_incr (case tokens st tid of None \<Rightarrow> Num 0 | Some r \<Rightarrow> attempts r)\<rparr>)"
  by (simp_all add: beginAttempt_def Let_def newTokenRecord_def split: option.splits)

lemma afterNonceQuery_fields:
  "chainOps (afterNonceQuery tid idx st) = chainOps st @ [OpGetTransactionCount idx]"
  "signerStates (afterNonceQuery tid idx st) = signerStates st"
  "summary (afterNonceQuery tid idx st) = summary st"
  "tokens (afterNonceQuery tid idx st) = tokens (beginAttempt tid st)"
  by (simp_all add: afterNonceQuery_def beginAttempt_fields)

lemma afterSend_fields:
  "chainOps (afterSend tid idx n st)
     = chainOps st @ [OpGetTransactionCount idx, OpEstimateGas idx,
                      OpMintURI idx n (buildMetadataUri tid)]"
  "signerStates (afterSend tid idx n st) = signerStates st"
  "summary (afterSend tid idx n st) = summary st"
  "tokens (afterSend tid idx n st) = tokens (beginAttempt tid st)"
  by (simp_all add: afterSend_def beginAttempt_fields)

lemma recordedSigner_beginAttempt:
  "recordedSigner (tokens (beginAttempt tid st)) tid = recordedSigner (tokens st) tid"
  by (simp add: recordedSigner_def beginAttempt_fields newTokenRecord_def split: option.splits)

lemma blamedSigner_beginAttempt:
  "blamedSigner (tokens (beginAttempt tid st)) tid = blamedSigner (tokens st) tid"
  by (simp add: blamedSigner_def recordedSigner_beginAttempt)

lemma submissions_append [simp]: "submissions (xs @ ys) = submissions xs + submissions ys"
  by (simp add: submissions_def)

lemma submissions_simps [simp]:
  "submissions [] = 0"
  "submissions (OpMintURI i n u # xs) = Suc (submissions xs)"
  "submissions (OpEstimateGas i # xs) = submissions xs"
  "submissions (OpGetTransactionCount i # xs) = submissions xs"
  "submissions (OpGetBalance i # xs) = submissions xs"
  "submissions (OpGetNetwork # xs) = submissions xs"
  by (simp_all add: submissions_def)

lemma catchBlock_frame:
  assumes "catchBlock cfg tid rc msg now st = Inr stp"
  shows "chainOps (stepState stp) = chainOps st
         \<and> (\<forall>t. t \<noteq> tid \<longrightarrow> tokens (stepState stp) t = tokens st t)
         \<and> length (signerStates (stepState stp)) = length (signerStates st)"
proof (cases "classifyError msg = ALREADY_KNOWN")
  case True
  with assms show ?thesis
    by (auto simp: catchBlock_def Let_def split: sum.splits dest!: handleSignerSuccess_fields)
next
  case False
  with assms show ?thesis
    by (auto simp: catchBlock_def Let_def
             split: sum.splits option.splits if_splits dest!: handleSignerFailure_fields)
qed

lemma catchBlock_Retry:
  "catchBlock cfg tid rc msg now st = Inr (Retry st') \<Longrightarrow> rc < RETRY_ATTEMPTS cfg"
  by (auto simp: catchBlock_def Let_def split: sum.splits option.splits if_splits)

lemma catchBlock_known:
  assumes "classifyError msg = ALREADY_KNOWN"
    and "blamedSigner (tokens st) tid < length (signerStates st)"
  shows "\<exists>st'. catchBlock cfg tid rc msg now st = Inr (Done True st')
           \<and> tokens st' tid = Some ((spreadRecord tid (tokens st tid))
                \<lparr>status := ''completed'',
                 metadataUri := Some (buildMetadataUri tid),
                 txHash := Some ''already_known'',
                 noteText := Some ''Transaction already known''\<rparr>)
           \<and> summary st' = (summary st)\<lparr>successful := successful (summary st) + 1,
                                          pending := pending (summary st) - 1\<rparr>
           \<and> chainOps st' = chainOps st
           \<and> (\<forall>j. isBackedOff (signerStates st' ! j) = isBackedOff (signerStates st ! j))"
proof -
  from handleSignerSuccess_ok [OF assms(2)] obtain st1 where
    h: "handleSignerSuccess (blamedSigner (tokens st) tid) st = Inr st1" by blast
  note f = handleSignerSuccess_fields [OF h] handleSignerSuccess_backoff [OF h]
  from assms(1) h f show ?thesis
    by (simp add: catchBlock_def Let_def)
qed


lemma catchBlock_signers:
  assumes "classifyError msg \<noteq> ALREADY_KNOWN"
    and "\<forall>i. recordedSigner (tokens st) tid = Some i \<longrightarrow> i < length (signerStates st)"
  shows "\<exists>st1. (case recordedSigner (tokens st) tid of
                  None \<Rightarrow> Inr st
                | Some i \<Rightarrow> handleSignerFailure cfg i now st) = Inr st1
           \<and> tokens st1 = tokens st \<and> summary st1 = summary st \<and> chainOps st1 = chainOps st
           \<and> (\<forall>j. isBackedOff (signerStates st1 ! j) \<longrightarrow>
                  isBackedOff (signerStates st ! j)
                  \<or> (recordedSigner (tokens st) tid = Some j
                     \<and> SIGNER_BACKOFF_THRESHOLD cfg
                          \<le> Suc (consecutiveFailures (signerStates st ! j))))
           \<and> (\<forall>j. recordedSigner (tokens st) tid \<noteq> Some j \<longrightarrow>
                  signerStates st1 ! j = signerStates st ! j)"
proof (cases "recordedSigner (tokens st) tid")
  case None
  then show ?thesis by simp
next
  case (Some i)
  with assms(2) have "i < length (signerStates st)" by simp
  from handleSignerFailure_ok [OF this] obtain st1 where
    h: "handleSignerFailure cfg i now st = Inr st1" by blast
  have "isBackedOff (signerStates st1 ! j) \<longrightarrow>
          isBackedOff (signerStates st ! j)
          \<or> (i = j \<and> SIGNER_BACKOFF_THRESHOLD cfg
                          \<le> Suc (consecutiveFailures (signerStates st ! j)))" for j
    using handleSignerFailure_flag [OF h] handleSignerFailure_others [OF h, of j]
    by (cases "j = i") auto
  moreover have "i \<noteq> j \<longrightarrow> signerStates st1 ! j = signerStates st ! j" for j
    using handleSignerFailure_others [OF h, of j] by auto
  ultimately show ?thesis
    using Some h handleSignerFailure_fields [OF h] by simp
qed

lemma catchBlock_retry:
  assumes "classifyError msg \<noteq> ALREADY_KNOWN"
    and "tokens st tid = Some r"
    and "\<forall>i. recordedSigner (tokens st) tid = Some i \<longrightarrow> i < length (signerStates st)"
    and "rc < RETRY_ATTEMPTS cfg"
  shows "\<exists>st'. catchBlock cfg tid rc msg now st = Inr (Retry st')
           \<and> tokens st' tid = Some (r\<lparr>lastSignerIndex := Some (blamedSigner (tokens st) tid)\<rparr>)
           \<and> summary st' = summary st
           \<and> chainOps st' = chainOps st
           \<and> (\<forall>j. isBackedOff (signerStates st' ! j) \<longrightarrow>
                  isBackedOff (signerStates st ! j)
                  \<or> (recordedSigner (tokens st) tid = Some j
                     \<and> SIGNER_BACKOFF_THRESHOLD cfg
                          \<le> Suc (consecutiveFailures (signerStates st ! j))))
           \<and> (\<forall>j. recordedSigner (tokens st) tid \<noteq> Some j \<longrightarrow>
                  signerStates st' ! j = signerStates st ! j)"
proof -
  from catchBlock_signers [OF assms(1) assms(3), of cfg now] obtain st1 where
    h: "(case recordedSigner (tokens st) tid of
           None \<Rightarrow> Inr st
         | Some i \<Rightarrow> handleSignerFailure cfg i now st) = Inr st1"
    and f: "tokens st1 = tokens st" "summary st1 = summary st" "chainOps st1 = chainOps st"
    and b: "\<forall>j. isBackedOff (signerStates st1 ! j) \<longrightarrow>
                  isBackedOff (signerStates st ! j)
                  \<or> (recordedSigner (tokens st) tid = Some j
                     \<and> SIGNER_BACKOFF_THRESHOLD cfg
                          \<le> Suc (consecutiveFailures (signerStates st ! j)))"
    and o: "\<forall>j. recordedSigner (tokens st) tid \<noteq> Some j \<longrightarrow>
                  signerStates st1 ! j = signerStates st ! j"
    by blast
  have "catchBlock cfg tid rc msg now st
          = Inr (Retry (st1\<lparr>tokens := (tokens st1)
                   (tid \<mapsto> r\<lparr>lastSignerIndex := Some (blamedSigner (tokens st) tid)\<rparr>)\<rparr>))"
    using assms(1,2,4) h f by (simp add: catchBlock_def Let_def)
  with f b o show ?thesis by simp
qed

lemma catchBlock_failed:
  assumes "classifyError msg \<noteq> ALREADY_KNOWN"
    and "tokens st tid = Some r"
    and "\<forall>i. recordedSigner (tokens st) tid = Some i \<longrightarrow> i < length (signerStates st)"
    and "\<not> rc < RETRY_ATTEMPTS cfg"
  shows "\<exists>st'. catchBlock cfg tid rc msg now st = Inr (Done False st')
           \<and> tokens st' tid = Some (r\<lparr>lastSignerIndex := Some (blamedSigner (tokens st) tid),
                                       status := ''failed'',
                                       error := Some msg,
                                       errorType := Some (classifyError msg),
                                       finalAttempt := Some (rc + 1)\<rparr>)
           \<and> summary st' = (summary st)\<lparr>failed := failed (summary st) + 1,
                                          pending := pending (summary st) - 1\<rparr>
           \<and> chainOps st' = chainOps st"
proof -
  from catchBlock_signers [OF assms(1) assms(3), of cfg now] obtain st1 where
    h: "(case recordedSigner (tokens st) tid of
           None \<Rightarrow> Inr st
         | Some i \<Rightarrow> handleSignerFailure cfg i now st) = Inr st1"
    and f: "tokens st1 = tokens st" "summary st1 = summary st" "chainOps st1 = chainOps st"
    by blast
  show ?thesis
    using assms(1,2,4) h f by (simp add: catchBlock_def Let_def)
qed

lemma attemptMint_nonce_error:
  "w_nonce w = Inl msg \<Longrightarrow>
   attemptMint cfg tid rc idx w st
     = catchBlock cfg tid rc msg (w_fail_now w) (afterNonceQuery tid idx st)"
  by (simp add: attemptMint_def)

lemma attemptMint_send_error:
  "w_nonce w = Inr n \<Longrightarrow> w_send w = Inl msg \<Longrightarrow>
   attemptMint cfg tid rc idx w st
     = catchBlock cfg tid rc msg (w_fail_now w) (afterSend tid idx n st)"
  by (simp add: attemptMint_def Let_def)

lemma attemptMint_success:
  assumes "w_nonce w = Inr n" and "w_send w = Inr rcpt" and "idx < length (signerStates st)"
  shows "\<exists>st'. attemptMint cfg tid rc idx w st = Inr (Done True st')
           \<and> (\<exists>r. tokens st' tid = Some r \<and> status r = ''completed''
                  \<and> txHash r = Some (r_hash rcpt) \<and> nonce r = Some n
                  \<and> signerIndex r = Some idx)
           \<and> (\<forall>t. t \<noteq> tid \<longrightarrow> tokens st' t = tokens st t)
           \<and> summary st' = (summary st)\<lparr>successful := successful (summary st) + 1,
                                          pending := pending (summary st) - 1\<rparr>
           \<and> chainOps st' = chainOps st @ [OpGetTransactionCount idx, OpEstimateGas idx,
                                            OpMintURI idx n (buildMetadataUri tid)]
           \<and> length (signerStates st') = length (signerStates st)
           \<and> (\<forall>j. isBackedOff (signerStates st' ! j) = isBackedOff (signerStates st ! j))
           \<and> consecutiveFailures (signerStates st' ! idx) = 0"
proof -
  from assms(3) have "idx < length (signerStates (afterSend tid idx n st))"
    by (simp add: afterSend_fields)
  from handleSignerSuccess_ok [OF this] obtain st4 where
    h: "handleSignerSuccess idx (afterSend tid idx n st) = Inr st4" by blast
  note f = handleSignerSuccess_fields [OF h] handleSignerSuccess_backoff [OF h]
    handleSignerSuccess_resets [OF h]
  from assms(1,2) h f show ?thesis
    by (simp add: attemptMint_def Let_def afterSend_fields beginAttempt_fields)
qed

lemma attemptMint_frame:
  assumes "attemptMint cfg tid rc idx w st = Inr stp"
  shows "(\<forall>t. t \<noteq> tid \<longrightarrow> tokens (stepState stp) t = tokens st t)
         \<and> submissions (chainOps (stepState stp)) \<le> Suc (submissions (chainOps st))
         \<and> length (signerStates (stepState stp)) = length (signerStates st)"
proof (cases "w_nonce w")
  case (Inl msg)
  with assms have "catchBlock cfg tid rc msg (w_fail_now w) (afterNonceQuery tid idx st) = Inr stp"
    by (simp add: attemptMint_nonce_error)
  from catchBlock_frame [OF this] show ?thesis
    by (simp add: afterNonceQuery_fields beginAttempt_fields)
next
  case (Inr n)
  show ?thesis
  proof (cases "w_send w")
    case (Inl msg)
    with Inr assms
    have "catchBlock cfg tid rc msg (w_fail_now w) (afterSend tid idx n st) = Inr stp"
      by (simp add: attemptMint_send_error)
    from catchBlock_frame [OF this] show ?thesis
      by (simp add: afterSend_fields beginAttempt_fields)
  next
    case send: (Inr rcpt)
    show ?thesis
    proof (cases "idx < length (signerStates st)")
      case True
      from attemptMint_success [OF Inr send True, of cfg tid rc] assms
      show ?thesis by auto
    next
      case False
      then have "handleSignerSuccess idx (afterSend tid idx n st) = Inl TypeError"
        by (simp add: handleSignerSuccess_def afterSend_fields)
      with Inr send assms
      have "catchBlock cfg tid rc ''Cannot set properties of undefined'' (w_fail_now w)
              (afterSend tid idx n st) = Inr stp"
        by (simp add: attemptMint_def Let_def)
      from catchBlock_frame [OF this] show ?thesis
        by (simp add: afterSend_fields beginAttempt_fields)
    qed
  qed
qed

lemma attemptMint_Retry:
  assumes "attemptMint cfg tid rc idx w st = Inr (Retry st')"
  shows "rc < RETRY_ATTEMPTS cfg"
  using assms
  by (auto simp: attemptMint_def Let_def split: sum.splits dest: catchBlock_Retry)

lemma mintSingleTokenOptimized_step:
  "getNextAvailableSigner (w_now w) (signerStates st) = (Some idx, ss) \<Longrightarrow>
   mintSingleTokenOptimized cfg tid rc (w # ws) st =
     (case attemptMint cfg tid rc idx w (st\<lparr>signerStates := ss\<rparr>) of
        Inl e \<Rightarrow> Some (Inl e)
      | Inr (Done b st1) \<Rightarrow> Some (Inr (b, st1, ws))
      | Inr (Retry st1) \<Rightarrow> mintSingleTokenOptimized cfg tid (Suc rc) ws st1)"
  by simp

lemma mintSingleTokenOptimized_wait:
  "getNextAvailableSigner (w_now w) (signerStates st) = (None, ss) \<Longrightarrow>
   mintSingleTokenOptimized cfg tid rc (w # ws) st =
     mintSingleTokenOptimized cfg tid rc ws (st\<lparr>signerStates := ss\<rparr>)"
  by simp

lemma getNextAvailableSigner_length:
  "getNextAvailableSigner now ss = (sel, ss') \<Longrightarrow> length ss' = length ss"
  by (auto simp: getNextAvailableSigner_eq split: option.splits dest: oldestSignerIndex_Some)


section \<open>Runs\<close>










lemma initializeBlockchain_tokens [simp]:
  "tokens (initializeBlockchain cfg now network_ok st) = tokens st"
  by (simp add: initializeBlockchain_def)

subsection \<open>The retry script\<close>

lemma resetNonceSequence_retry_tokens [simp]:
  "rt_tokens (resetNonceSequence_retry a st) = rt_tokens st"
  by (simp add: resetNonceSequence_retry_def Let_def split: option.splits)

lemma getNextNonce_retry_tokens [simp]:
  "rt_tokens (snd (getNextNonce_retry st)) = rt_tokens st"
  by (simp add: getNextNonce_retry_def)

lemma decrementPending_tokens [simp]:
  "rt_tokens (decrementPending tid st) = rt_tokens st"
  by (simp add: decrementPending_def)



lemma run_states_retry_nonempty [simp]: "run_states_retry cfg env k ids st \<noteq> []"
  by (cases ids) simp_all

lemma run_states_retry_hd [simp]: "run_states_retry cfg env k ids st ! 0 = st"
  by (cases ids) simp_all





lemma run_states_retry_length [simp]:
  "length (run_states_retry cfg env k ids st) = Suc (length ids)"
  by (induction ids arbitrary: k st) simp_all


lemma getNextAvailableSigner_flags:
  assumes "getNextAvailableSigner now ss = (sel, ss')" and "j < length ss"
  shows "isBackedOff (ss' ! j) = (\<not> selectable now (ss ! j))"
proof (cases sel)
  case None
  with assms show ?thesis
    using getNextAvailableSigner_None_state [of now ss ss'] by (simp add: selectable_def)
next
  case (Some i)
  with assms have "ss' = (map (reactivate now) ss)[i := (reactivate now (ss ! i))\<lparr>lastUsed := now\<rparr>]"
    by (auto simp: getNextAvailableSigner_eq split: option.splits)
  with assms(2) show ?thesis
    by (cases "j = i") (simp_all add: selectable_def)
qed

lemma getNextAvailableSigner_finds:
  assumes "j < length ss" and "\<not> isBackedOff (ss ! j)"
  shows "\<exists>idx ss'. getNextAvailableSigner now ss = (Some idx, ss')"
proof -
  from assms have "selectable now (ss ! j)" by (simp add: selectable_iff)
  with assms(1) have "fst (getNextAvailableSigner now ss) \<noteq> None"
    by (auto simp: getNextAvailableSigner_None)
  then show ?thesis
    by (cases "getNextAvailableSigner now ss") auto
qed

lemma catchBlock_Retry_props:
  assumes "catchBlock cfg tid rc msg now st = Inr (Retry st')"
  shows "blamedSigner (tokens st') tid = blamedSigner (tokens st) tid
         \<and> (\<forall>j. j \<noteq> blamedSigner (tokens st) tid \<longrightarrow> signerStates st' ! j = signerStates st ! j)"
proof (cases "recordedSigner (tokens st) tid")
  case None
  with assms show ?thesis
    by (auto simp: catchBlock_def Let_def blamedSigner_def recordedSigner_def
             split: sum.splits option.splits if_splits)
next
  case (Some i)
  then have b: "blamedSigner (tokens st) tid = i" by (simp add: blamedSigner_def)
  from assms Some obtain st1 where
    h: "handleSignerFailure cfg i now st = Inr st1"
    by (cases "handleSignerFailure cfg i now st")
       (auto simp: catchBlock_def Let_def split: sum.splits option.splits if_splits)
  note f = handleSignerFailure_fields [OF h]
  from assms Some h f obtain r where
    "st' = st1\<lparr>tokens := (tokens st1)(tid \<mapsto> r\<lparr>lastSignerIndex := Some i\<rparr>)\<rparr>"
    by (auto simp: catchBlock_def Let_def b split: sum.splits option.splits if_splits)
  with b handleSignerFailure_others [OF h] show ?thesis
    by (simp add: blamedSigner_def recordedSigner_def)
qed

lemma attemptMint_Retry_props:
  assumes "attemptMint cfg tid rc idx w st = Inr (Retry st')"
  shows "blamedSigner (tokens st') tid = blamedSigner (tokens st) tid
         \<and> (\<forall>j. j \<noteq> blamedSigner (tokens st) tid \<longrightarrow> signerStates st' ! j = signerStates st ! j)"
proof -
  from assms obtain msg stx where
    c: "catchBlock cfg tid rc msg (w_fail_now w) stx = Inr (Retry st')"
    and x: "tokens stx = tokens (beginAttempt tid st)" "signerStates stx = signerStates st"
    by (auto simp: attemptMint_def Let_def afterSend_fields afterNonceQuery_fields
             split: sum.splits)
  from catchBlock_Retry_props [OF c] x show ?thesis
    by (simp add: blamedSigner_beginAttempt)
qed

lemma spare_signer_returns:
  assumes "j < length (signerStates st)"
    and "j \<noteq> blamedSigner (tokens st) tid"
    and "\<not> isBackedOff (signerStates st ! j)"
    and "Suc (RETRY_ATTEMPTS cfg - rc) \<le> length ws"
  shows "mintSingleTokenOptimized cfg tid rc ws st \<noteq> None"
  using assms
proof (induction ws arbitrary: rc st)
  case Nil
  then show ?case by simp
next
  case (Cons w ws)
  from getNextAvailableSigner_finds [OF Cons.prems(1) Cons.prems(3), of "w_now w"]
  obtain idx ss where g: "getNextAvailableSigner (w_now w) (signerStates st) = (Some idx, ss)"
    by blast
  have len: "length ss = length (signerStates st)"
    using getNextAvailableSigner_length [OF g] .
  from Cons.prems(3) have "selectable (w_now w) (signerStates st ! j)"
    by (simp add: selectable_iff)
  with getNextAvailableSigner_flags [OF g Cons.prems(1)]
  have nb: "\<not> isBackedOff (ss ! j)" by simp
  show ?case
  proof (cases "attemptMint cfg tid rc idx w (st\<lparr>signerStates := ss\<rparr>)")
    case (Inl e)
    with g show ?thesis by simp
  next
    case (Inr stp)
    show ?thesis
    proof (cases stp)
      case (Done b st1)
      with g Inr show ?thesis by simp
    next
      case (Retry st1)
      with Inr have a: "attemptMint cfg tid rc idx w (st\<lparr>signerStates := ss\<rparr>) = Inr (Retry st1)"
        by simp
      from attemptMint_Retry [OF a] have r: "rc < RETRY_ATTEMPTS cfg" .
      from attemptMint_Retry_props [OF a] Cons.prems(2)
      have p: "blamedSigner (tokens st1) tid = blamedSigner (tokens st) tid"
        and q: "signerStates st1 ! j = ss ! j"
        by simp_all
      from attemptMint_frame [OF a] len Cons.prems(1)
      have 1: "j < length (signerStates st1)" by simp
      from p Cons.prems(2) have 2: "j \<noteq> blamedSigner (tokens st1) tid" by simp
      from q nb have 3: "\<not> isBackedOff (signerStates st1 ! j)" by simp
      from Cons.prems(4) r have 4: "Suc (RETRY_ATTEMPTS cfg - Suc rc) \<le> length ws" by simp
      from Cons.IH [OF 1 2 3 4] g a show ?thesis by simp
    qed
  qed
qed



section \<open>Error outcomes\<close>

lemma errorState:
  assumes "w_nonce w = Inl msg \<or> (\<exists>n. w_nonce w = Inr n \<and> w_send w = Inl msg)"
  shows "\<exists>stx. attemptMint cfg tid rc idx w st = catchBlock cfg tid rc msg (w_fail_now w) stx
           \<and> tokens stx = tokens (beginAttempt tid st)
           \<and> signerStates stx = signerStates st
           \<and> summary stx = summary st
           \<and> submissions (chainOps stx) \<le> Suc (submissions (chainOps st))"
proof (cases "w_nonce w")
  case (Inl m)
  with assms have "m = msg" by auto
  with Inl show ?thesis
    using attemptMint_nonce_error [of w msg cfg tid rc idx st]
    by (auto simp: afterNonceQuery_fields)
next
  case (Inr n)
  with assms have "w_send w = Inl msg" by auto
  with Inr show ?thesis
    using attemptMint_send_error [of w n msg cfg tid rc idx st]
    by (auto simp: afterSend_fields)
qed

lemma already_known_multi:
  assumes g: "getNextAvailableSigner (w_now w) (signerStates st) = (Some idx, ss)"
    and e: "w_nonce w = Inl msg \<or> (\<exists>n. w_nonce w = Inr n \<and> w_send w = Inl msg)"
    and k: "classifyError msg = ALREADY_KNOWN"
    and l: "blamedSigner (tokens st) tid < length (signerStates st)"
  shows "\<exists>st'. mintSingleTokenOptimized cfg tid rc (w # ws) st = Some (Inr (True, st', ws))
           \<and> (\<exists>r. tokens st' tid = Some r \<and> status r = ''completed''
                  \<and> txHash r = Some ''already_known''
                  \<and> attempts r = js_incr (case tokens st tid of
                                             None \<Rightarrow> Num 0 | Some r0 \<Rightarrow> attempts r0))
           \<and> successful (summary st') = successful (summary st) + 1
           \<and> pending (summary st') = pending (summary st) - 1
           \<and> failed (summary st') = failed (summary st)
           \<and> submissions (chainOps st') \<le> Suc (submissions (chainOps st))"
proof -
  let ?st0 = "st\<lparr>signerStates := ss\<rparr>"
  from errorState [OF e, of cfg tid rc idx ?st0] obtain stx where
    a: "attemptMint cfg tid rc idx w ?st0 = catchBlock cfg tid rc msg (w_fail_now w) stx"
    and x: "tokens stx = tokens (beginAttempt tid ?st0)" "signerStates stx = ss"
      "summary stx = summary st"
      "submissions (chainOps stx) \<le> Suc (submissions (chainOps st))"
    by auto
  have t: "tokens (beginAttempt tid ?st0) = tokens (beginAttempt tid st)"
    by (simp add: beginAttempt_def Let_def)
  have "blamedSigner (tokens stx) tid = blamedSigner (tokens st) tid"
    using x(1) t by (simp add: blamedSigner_beginAttempt)
  with l x(2) getNextAvailableSigner_length [OF g]
  have "blamedSigner (tokens stx) tid < length (signerStates stx)" by simp
  from catchBlock_known [OF k this, of cfg rc "w_fail_now w"] obtain st' where
    c: "catchBlock cfg tid rc msg (w_fail_now w) stx = Inr (Done True st')"
    and r: "tokens st' tid = Some ((spreadRecord tid (tokens stx tid))
                \<lparr>status := ''completed'',
                 metadataUri := Some (buildMetadataUri tid),
                 txHash := Some ''already_known'',
                 noteText := Some ''Transaction already known''\<rparr>)"
    and s: "summary st' = (summary stx)\<lparr>successful := successful (summary stx) + 1,
                                          pending := pending (summary stx) - 1\<rparr>"
    and o: "chainOps st' = chainOps stx"
    by blast
  from g a c have "mintSingleTokenOptimized cfg tid rc (w # ws) st = Some (Inr (True, st', ws))"
    by (simp add: mintSingleTokenOptimized_step)
  moreover from r x(1) t
  have "\<exists>r. tokens st' tid = Some r \<and> status r = ''completed''
                  \<and> txHash r = Some ''already_known''
                  \<and> attempts r = js_incr (case tokens st tid of
                                             None \<Rightarrow> Num 0 | Some r0 \<Rightarrow> attempts r0)"
    by (simp add: beginAttempt_fields spreadRecord_def)
  ultimately show ?thesis using s o x by simp
qed

lemma already_known_single:
  assumes "a_send (env tid rc) = Inl msg" and "classifyError_single msg = ALREADY_KNOWN"
  shows "\<exists>st'. mintSingleToken cfg env tid rc sst = (True, st')
           \<and> (\<exists>r. s_tokens st' tid = Some r \<and> status r = ''completed''
                  \<and> txHash r = Some ''already_known''
                  \<and> attempts r = js_incr (case s_tokens sst tid of
                                             None \<Rightarrow> Num 0 | Some r0 \<Rightarrow> attempts r0))
           \<and> successful (s_summary st') = successful (s_summary sst) + 1
           \<and> pending (s_summary st') = pending (s_summary sst) - 1
           \<and> failed (s_summary st') = failed (s_summary sst)
           \<and> submissions (s_chainOps st') = Suc (submissions (s_chainOps sst))"
  using assms
  by (subst mintSingleToken.simps)
     (simp add: Let_def getNextNonce_def spreadRecord_def newTokenRecord_def
           split: option.splits)

lemma fresh_pool:
  "signerStates (initializeBlockchain (CONFIG [a]) t0 ok st)
     = [\<lparr> consecutiveFailures = 0, isBackedOff = False, backoffUntil = 0,
           totalMinted = 0, totalFailed = 0, lastUsed = t0,
           stats = \<lparr> address = a, minted = 0, stats_failed = 0, backedOff = 0 \<rparr> \<rparr>]"
  by (simp add: initializeBlockchain_def CONFIG_def)

lemma already_known_text: "classifyError ''already known'' = ALREADY_KNOWN"
  by (rule classifyError_known)
     (simp add: toLowerCase_def toLowerChar_def str_includes_def)

lemma already_known_text_single: "classifyError_single ''already known'' = ALREADY_KNOWN"
  by (rule classifyError_single_known)
     (simp add: toLowerCase_def toLowerChar_def str_includes_def)

lemma initializeBlockchain_single_tokens [simp]:
  "s_tokens (initializeBlockchain_single network_ok answer st) = s_tokens st"
  by (simp add: initializeBlockchain_single_def resetNonceSequence_def Let_def
           split: option.splits)

lemma precreated_first:
  "s_tokens (initializeBlockchain_single network_ok answer
               (startEngine (loadExistingProgress_single CONFIG_single None))) 200001
     = Some (precreated 200001)"
  by (simp add: startEngine_fresh CONFIG_single_def)

text \<open>
  Claim C7. When the error of an attempt is classified ALREADY_KNOWN, the call returns
  \<^verbatim>\<open>true\<close> at once: the record of the token is completed with \<^verbatim>\<open>txHash\<close>
  \<^verbatim>\<open>'already_known'\<close>, \<^verbatim>\<open>summary.successful\<close> goes up by one and \<^verbatim>\<open>summary.pending\<close>
  down by one, and no further world is consumed, so no further attempt is made. The
  attempt counter is the previous one plus one, hence 1 when the token had no record. In
  the multi-signer script the catch block first credits the signer \<open>blamedSigner\<close>,
  which has to exist in the pool (the script stores no index but 0, and a pool that has
  handed out a signer is not empty). The second part is the same statement for
  \<^verbatim>\<open>mintSingleToken\<close> of the single-signer script. The third part is the first call
  the single-signer script makes when it starts without a log file: the record of token
  200001 was created by \<^verbatim>\<open>loadExistingProgress\<close> without a counter, and
  \<^verbatim>\<open>attempts++\<close> leaves it NaN instead of 1.
\<close>

theorem already_known_short_circuit:
  "(getNextAvailableSigner (w_now w) (signerStates st) = (Some idx, ss)
      \<and> (w_nonce w = Inl msg \<or> (\<exists>n. w_nonce w = Inr n \<and> w_send w = Inl msg))
      \<and> classifyError msg = ALREADY_KNOWN
      \<and> blamedSigner (tokens st) tid < length (signerStates st)
    \<longrightarrow> (\<exists>st'. mintSingleTokenOptimized cfg tid rc (w # ws) st = Some (Inr (True, st', ws))
           \<and> (\<exists>r. tokens st' tid = Some r \<and> status r = ''completed''
                  \<and> txHash r = Some ''already_known''
                  \<and> attempts r = js_incr (case tokens st tid of
                                             None \<Rightarrow> Num 0 | Some r0 \<Rightarrow> attempts r0))
           \<and> successful (summary st') = successful (summary st) + 1
           \<and> pending (summary st') = pending (summary st) - 1
           \<and> failed (summary st') = failed (summary st)
           \<and> submissions (chainOps st') \<le> Suc (submissions (chainOps st))))
   \<and> (a_send (env tid rc) = Inl msg \<and> classifyError_single msg = ALREADY_KNOWN
    \<longrightarrow> (\<exists>st'. mintSingleToken cfg env tid rc sst = (True, st')
           \<and> (\<exists>r. s_tokens st' tid = Some r \<and> status r = ''completed''
                  \<and> txHash r = Some ''already_known''
                  \<and> attempts r = js_incr (case s_tokens sst tid of
                                             None \<Rightarrow> Num 0 | Some r0 \<Rightarrow> attempts r0))
           \<and> successful (s_summary st') = successful (s_summary sst) + 1
           \<and> pending (s_summary st') = pending (s_summary sst) - 1
           \<and> failed (s_summary st') = failed (s_summary sst)
           \<and> submissions (s_chainOps st') = Suc (submissions (s_chainOps sst))))
   \<and> (\<exists>st'. mintSingleToken CONFIG_single
               (\<lambda>tid k. \<lparr> a_send = Inl ''already known'', a_pending = None \<rparr>) 200001 0
               (initializeBlockchain_single True (Some 5)
                  (startEngine (loadExistingProgress_single CONFIG_single None)))
             = (True, st')
           \<and> (\<exists>r. s_tokens st' 200001 = Some r \<and> status r = ''completed''
                  \<and> txHash r = Some ''already_known'' \<and> attempts r = NotANumber))"
proof (intro conjI impI)
  assume "getNextAvailableSigner (w_now w) (signerStates st) = (Some idx, ss)
      \<and> (w_nonce w = Inl msg \<or> (\<exists>n. w_nonce w = Inr n \<and> w_send w = Inl msg))
      \<and> classifyError msg = ALREADY_KNOWN
      \<and> blamedSigner (tokens st) tid < length (signerStates st)"
  then show "\<exists>st'. mintSingleTokenOptimized cfg tid rc (w # ws) st = Some (Inr (True, st', ws))
           \<and> (\<exists>r. tokens st' tid = Some r \<and> status r = ''completed''
                  \<and> txHash r = Some ''already_known''
                  \<and> attempts r = js_incr (case tokens st tid of
                                             None \<Rightarrow> Num 0 | Some r0 \<Rightarrow> attempts r0))
           \<and> successful (summary st') = successful (summary st) + 1
           \<and> pending (summary st') = pending (summary st) - 1
           \<and> failed (summary st') = failed (summary st)
           \<and> submissions (chainOps st') \<le> Suc (submissions (chainOps st))"
    using already_known_multi [of w st idx ss msg tid cfg rc ws] by (elim conjE) simp
next
  assume "a_send (env tid rc) = Inl msg \<and> classifyError_single msg = ALREADY_KNOWN"
  then show "\<exists>st'. mintSingleToken cfg env tid rc sst = (True, st')
           \<and> (\<exists>r. s_tokens st' tid = Some r \<and> status r = ''completed''
                  \<and> txHash r = Some ''already_known''
                  \<and> attempts r = js_incr (case s_tokens sst tid of
                                             None \<Rightarrow> Num 0 | Some r0 \<Rightarrow> attempts r0))
           \<and> successful (s_summary st') = successful (s_summary sst) + 1
           \<and> pending (s_summary st') = pending (s_summary sst) - 1
           \<and> failed (s_summary st') = failed (s_summary sst)
           \<and> submissions (s_chainOps st') = Suc (submissions (s_chainOps sst))"
    using already_known_single [of env tid rc msg cfg sst] by (elim conjE) simp
next
  let ?env = "\<lambda>tid k. \<lparr> a_send = Inl ''already known'', a_pending = None \<rparr>"
  let ?sst = "initializeBlockchain_single True (Some 5)
                (startEngine (loadExistingProgress_single CONFIG_single None))"
  have e: "a_send (?env 200001 0) = Inl ''already known''" by simp
  have a: "js_incr (case s_tokens ?sst 200001 of None \<Rightarrow> Num 0 | Some r0 \<Rightarrow> attempts r0)
             = NotANumber"
    unfolding precreated_first by (simp add: precreated_def)
  from already_known_single
         [where env = ?env and tid = 200001 and rc = 0 and msg = "''already known''"
            and cfg = CONFIG_single and sst = ?sst, OF e already_known_text_single]
  show "\<exists>st'. mintSingleToken CONFIG_single ?env 200001 0 ?sst = (True, st')
           \<and> (\<exists>r. s_tokens st' 200001 = Some r \<and> status r = ''completed''
                  \<and> txHash r = Some ''already_known'' \<and> attempts r = NotANumber)"
    unfolding a by blast
qed

theorem already_known_short_circuit_witness:
  "(\<exists>st'. mintSingleTokenOptimized (CONFIG [''0xA'']) 300001 0
             [\<lparr> w_now = 2000, w_nonce = Inr 7, w_send = Inl ''already known'',
                w_fail_now = 2100 \<rparr>]
             (initializeBlockchain (CONFIG [''0xA'']) 1000 True (loadExistingProgress None))
           = Some (Inr (True, st', []))
         \<and> (\<exists>r. tokens st' 300001 = Some r \<and> status r = ''completed''
                \<and> txHash r = Some ''already_known'' \<and> attempts r = Num 1))
   \<and> (\<exists>st'. mintSingleToken CONFIG_single
             (\<lambda>tid k. \<lparr> a_send = Inl ''already known'', a_pending = None \<rparr>) 200001 0
             \<lparr> s_tokens = Map.empty,
               s_summary = \<lparr> total = 100000, successful = 0, failed = 0, pending = 100000 \<rparr>,
               baseNonce = Some 5, nonceOffset = 0, s_chainOps = [] \<rparr>
           = (True, st')
         \<and> (\<exists>r. s_tokens st' 200001 = Some r \<and> status r = ''completed''
                \<and> txHash r = Some ''already_known'' \<and> attempts r = Num 1))"
proof -
  let ?cfg = "CONFIG [''0xA'']"
  let ?st = "initializeBlockchain ?cfg 1000 True (loadExistingProgress None)"
  let ?w = "\<lparr> w_now = 2000, w_nonce = Inr 7, w_send = Inl ''already known'',
               w_fail_now = 2100 \<rparr>"
  let ?env = "\<lambda>tid k. \<lparr> a_send = Inl ''already known'', a_pending = None \<rparr>"
  let ?sst = "\<lparr> s_tokens = Map.empty,
               s_summary = \<lparr> total = 100000, successful = 0, failed = 0, pending = 100000 \<rparr>,
               baseNonce = Some 5, nonceOffset = 0, s_chainOps = [] \<rparr>"
  have t: "tokens ?st 300001 = None"
    by (simp add: loadExistingProgress_def)
  obtain idx ss where g: "getNextAvailableSigner (w_now ?w) (signerStates ?st) = (Some idx, ss)"
    using getNextAvailableSigner_finds [of 0 "signerStates ?st" "w_now ?w"]
    by (auto simp: fresh_pool)
  have h: "getNextAvailableSigner (w_now ?w) (signerStates ?st) = (Some idx, ss)
           \<and> (w_nonce ?w = Inl ''already known''
               \<or> (\<exists>n. w_nonce ?w = Inr n \<and> w_send ?w = Inl ''already known''))
           \<and> classifyError ''already known'' = ALREADY_KNOWN
           \<and> blamedSigner (tokens ?st) 300001 < length (signerStates ?st)"
    using g already_known_text
    by (simp add: blamedSigner_def recordedSigner_def loadExistingProgress_def fresh_pool)
  have k: "a_send (?env 200001 0) = Inl ''already known''
           \<and> classifyError_single ''already known'' = ALREADY_KNOWN"
    using already_known_text_single by simp
  note multi = already_known_short_circuit
    [where w = ?w and st = ?st and idx = idx and ss = ss and msg = "''already known''"
       and tid = 300001 and cfg = ?cfg and rc = 0 and ws = "[]"]
  note single = already_known_short_circuit
    [where env = ?env and tid = 200001 and rc = 0 and msg = "''already known''"
       and cfg = CONFIG_single and sst = ?sst]
  have a1: "js_incr (case tokens ?st 300001 of None \<Rightarrow> Num 0 | Some r0 \<Rightarrow> attempts r0)
              = Num 1"
    by (simp add: loadExistingProgress_def)
  have a2: "js_incr (case s_tokens ?sst 200001 of None \<Rightarrow> Num 0 | Some r0 \<Rightarrow> attempts r0)
              = Num 1"
    by simp
  from mp [OF conjunct1 [OF multi] h]
  have 1: "\<exists>st'. mintSingleTokenOptimized ?cfg 300001 0 [?w] ?st
                               = Some (Inr (True, st', []))
         \<and> (\<exists>r. tokens st' 300001 = Some r \<and> status r = ''completed''
                \<and> txHash r = Some ''already_known'' \<and> attempts r = Num 1)"
    unfolding a1 by blast
  from mp [OF conjunct1 [OF conjunct2 [OF single]] k]
  have 2: "\<exists>st'. mintSingleToken CONFIG_single ?env 200001 0 ?sst = (True, st')
         \<and> (\<exists>r. s_tokens st' 200001 = Some r \<and> status r = ''completed''
                \<and> txHash r = Some ''already_known'' \<and> attempts r = Num 1)"
    unfolding a2 by blast
  from 1 2 show ?thesis by (rule conjI)
qed

section \<open>A run with a completed record\<close>




section \<open>Errors other than ALREADY_KNOWN\<close>

lemma insufficient_text:
  "classifyError ''insufficient funds for gas * price + value'' = INSUFFICIENT_FUNDS"
  by (simp add: classifyError_def toLowerCase_def toLowerChar_def str_includes_def sublist_code)

lemma errorState_recorded:
  assumes "tokens stx = tokens (beginAttempt tid st)"
  shows "recordedSigner (tokens stx) tid = recordedSigner (tokens st) tid
         \<and> blamedSigner (tokens stx) tid = blamedSigner (tokens st) tid
         \<and> (\<exists>r. tokens stx tid = Some r
                \<and> status r = (case tokens st tid of None \<Rightarrow> ''pending'' | Some r0 \<Rightarrow> status r0))"
  using assms
  by (simp add: recordedSigner_beginAttempt blamedSigner_beginAttempt beginAttempt_fields
        newTokenRecord_def split: option.splits)

lemma other_error_retry:
  assumes g: "getNextAvailableSigner (w_now w) (signerStates st) = (Some idx, ss)"
    and e: "w_nonce w = Inl msg \<or> (\<exists>n. w_nonce w = Inr n \<and> w_send w = Inl msg)"
    and k: "classifyError msg \<noteq> ALREADY_KNOWN"
    and v: "\<forall>i. recordedSigner (tokens st) tid = Some i \<longrightarrow> i < length (signerStates st)"
    and r: "rc < RETRY_ATTEMPTS cfg"
  shows "\<exists>st1. mintSingleTokenOptimized cfg tid rc (w # ws) st
                 = mintSingleTokenOptimized cfg tid (Suc rc) ws st1
           \<and> (\<exists>r. tokens st1 tid = Some r
                  \<and> status r = (case tokens st tid of
                                  None \<Rightarrow> ''pending'' | Some r0 \<Rightarrow> status r0))
           \<and> summary st1 = summary st
           \<and> (\<forall>j. isBackedOff (signerStates st1 ! j) \<longrightarrow>
                  isBackedOff (ss ! j)
                  \<or> (recordedSigner (tokens st) tid = Some j
                     \<and> SIGNER_BACKOFF_THRESHOLD cfg \<le> Suc (consecutiveFailures (ss ! j))))"
proof -
  let ?st0 = "st\<lparr>signerStates := ss\<rparr>"
  from errorState [OF e, of cfg tid rc idx ?st0] obtain stx where
    a: "attemptMint cfg tid rc idx w ?st0 = catchBlock cfg tid rc msg (w_fail_now w) stx"
    and x: "tokens stx = tokens (beginAttempt tid ?st0)" "signerStates stx = ss"
      "summary stx = summary st"
    by auto
  have t: "tokens (beginAttempt tid ?st0) = tokens (beginAttempt tid st)"
    by (simp add: beginAttempt_def Let_def)
  from errorState_recorded [of stx tid st] x(1) t obtain r0 where
    rs: "recordedSigner (tokens stx) tid = recordedSigner (tokens st) tid"
    and r0: "tokens stx tid = Some r0"
      "status r0 = (case tokens st tid of None \<Rightarrow> ''pending'' | Some r0 \<Rightarrow> status r0)"
    by auto
  from v rs x(2) getNextAvailableSigner_length [OF g]
  have v': "\<forall>i. recordedSigner (tokens stx) tid = Some i \<longrightarrow> i < length (signerStates stx)"
    by simp
  from catchBlock_retry [OF k r0(1) v' r, of "w_fail_now w"] obtain st1 where
    c: "catchBlock cfg tid rc msg (w_fail_now w) stx = Inr (Retry st1)"
    and p: "tokens st1 tid = Some (r0\<lparr>lastSignerIndex := Some (blamedSigner (tokens stx) tid)\<rparr>)"
      "summary st1 = summary stx"
      "\<forall>j. isBackedOff (signerStates st1 ! j) \<longrightarrow>
                  isBackedOff (signerStates stx ! j)
                  \<or> (recordedSigner (tokens stx) tid = Some j
                     \<and> SIGNER_BACKOFF_THRESHOLD cfg
                          \<le> Suc (consecutiveFailures (signerStates stx ! j)))"
    by blast
  from g a c have "mintSingleTokenOptimized cfg tid rc (w # ws) st
                 = mintSingleTokenOptimized cfg tid (Suc rc) ws st1"
    by (simp add: mintSingleTokenOptimized_step)
  with p r0 rs x show ?thesis by auto
qed

lemma other_error_final:
  assumes g: "getNextAvailableSigner (w_now w) (signerStates st) = (Some idx, ss)"
    and e: "w_nonce w = Inl msg \<or> (\<exists>n. w_nonce w = Inr n \<and> w_send w = Inl msg)"
    and k: "classifyError msg \<noteq> ALREADY_KNOWN"
    and v: "\<forall>i. recordedSigner (tokens st) tid = Some i \<longrightarrow> i < length (signerStates st)"
    and r: "\<not> rc < RETRY_ATTEMPTS cfg"
  shows "\<exists>st'. mintSingleTokenOptimized cfg tid rc (w # ws) st = Some (Inr (False, st', ws))
           \<and> (\<exists>r. tokens st' tid = Some r \<and> status r = ''failed''
                  \<and> errorType r = Some (classifyError msg)
                  \<and> finalAttempt r = Some (rc + 1))
           \<and> failed (summary st') = failed (summary st) + 1"
proof -
  let ?st0 = "st\<lparr>signerStates := ss\<rparr>"
  from errorState [OF e, of cfg tid rc idx ?st0] obtain stx where
    a: "attemptMint cfg tid rc idx w ?st0 = catchBlock cfg tid rc msg (w_fail_now w) stx"
    and x: "tokens stx = tokens (beginAttempt tid ?st0)" "signerStates stx = ss"
      "summary stx = summary st"
    by auto
  have t: "tokens (beginAttempt tid ?st0) = tokens (beginAttempt tid st)"
    by (simp add: beginAttempt_def Let_def)
  from errorState_recorded [of stx tid st] x(1) t obtain r0 where
    rs: "recordedSigner (tokens stx) tid = recordedSigner (tokens st) tid"
    and r0: "tokens stx tid = Some r0"
    by auto
  from v rs x(2) getNextAvailableSigner_length [OF g]
  have v': "\<forall>i. recordedSigner (tokens stx) tid = Some i \<longrightarrow> i < length (signerStates stx)"
    by simp
  from catchBlock_failed [OF k r0 v' r, of "w_fail_now w"] obtain st' where
    c: "catchBlock cfg tid rc msg (w_fail_now w) stx = Inr (Done False st')"
    and p: "tokens st' tid = Some (r0\<lparr>lastSignerIndex := Some (blamedSigner (tokens stx) tid),
                                       status := ''failed'',
                                       error := Some msg,
                                       errorType := Some (classifyError msg),
                                       finalAttempt := Some (rc + 1)\<rparr>)"
      "summary st' = (summary stx)\<lparr>failed := failed (summary stx) + 1,
                                    pending := pending (summary stx) - 1\<rparr>"
    by blast
  from g a c have "mintSingleTokenOptimized cfg tid rc (w # ws) st = Some (Inr (False, st', ws))"
    by (simp add: mintSingleTokenOptimized_step)
  with p x show ?thesis by simp
qed

text \<open>
  Claim C8, as the code has it. An error classified INSUFFICIENT_FUNDS is treated like
  every other error that is not ALREADY_KNOWN. While \<^verbatim>\<open>retryCount < RETRY_ATTEMPTS\<close> the
  call goes on to another attempt with \<^verbatim>\<open>retryCount + 1\<close>, the record keeps its status and
  the summary is unchanged; a signer is flagged as backed off by this pass only if it is the
  signer recorded in the token's \<^verbatim>\<open>lastSignerIndex\<close> and its \<^verbatim>\<open>consecutiveFailures\<close>
  reach the threshold. After the last retry the record is marked failed with error type
  INSUFFICIENT_FUNDS. (The signer recorded in \<^verbatim>\<open>lastSignerIndex\<close>, when there is one, has
  to exist in the pool.)
\<close>

theorem insufficient_funds_is_retried:
  "(getNextAvailableSigner (w_now w) (signerStates st) = (Some idx, ss)
      \<and> (w_nonce w = Inl msg \<or> (\<exists>n. w_nonce w = Inr n \<and> w_send w = Inl msg))
      \<and> classifyError msg = INSUFFICIENT_FUNDS
      \<and> (\<forall>i. recordedSigner (tokens st) tid = Some i \<longrightarrow> i < length (signerStates st))
      \<and> rc < RETRY_ATTEMPTS cfg
    \<longrightarrow> (\<exists>st1. mintSingleTokenOptimized cfg tid rc (w # ws) st
                 = mintSingleTokenOptimized cfg tid (Suc rc) ws st1
           \<and> (\<exists>r. tokens st1 tid = Some r
                  \<and> status r = (case tokens st tid of
                                  None \<Rightarrow> ''pending'' | Some r0 \<Rightarrow> status r0))
           \<and> summary st1 = summary st
           \<and> (\<forall>j. isBackedOff (signerStates st1 ! j) \<longrightarrow>
                  isBackedOff (ss ! j)
                  \<or> (recordedSigner (tokens st) tid = Some j
                     \<and> SIGNER_BACKOFF_THRESHOLD cfg \<le> Suc (consecutiveFailures (ss ! j))))))
   \<and> (getNextAvailableSigner (w_now w) (signerStates st) = (Some idx, ss)
      \<and> (w_nonce w = Inl msg \<or> (\<exists>n. w_nonce w = Inr n \<and> w_send w = Inl msg))
      \<and> classifyError msg = INSUFFICIENT_FUNDS
      \<and> (\<forall>i. recordedSigner (tokens st) tid = Some i \<longrightarrow> i < length (signerStates st))
      \<and> \<not> rc < RETRY_ATTEMPTS cfg
    \<longrightarrow> (\<exists>st'. mintSingleTokenOptimized cfg tid rc (w # ws) st = Some (Inr (False, st', ws))
           \<and> (\<exists>r. tokens st' tid = Some r \<and> status r = ''failed''
                  \<and> errorType r = Some INSUFFICIENT_FUNDS
                  \<and> finalAttempt r = Some (rc + 1))
           \<and> failed (summary st') = failed (summary st) + 1))"
proof (intro conjI impI)
  assume a: "getNextAvailableSigner (w_now w) (signerStates st) = (Some idx, ss)
      \<and> (w_nonce w = Inl msg \<or> (\<exists>n. w_nonce w = Inr n \<and> w_send w = Inl msg))
      \<and> classifyError msg = INSUFFICIENT_FUNDS
      \<and> (\<forall>i. recordedSigner (tokens st) tid = Some i \<longrightarrow> i < length (signerStates st))
      \<and> rc < RETRY_ATTEMPTS cfg"
  then have k: "classifyError msg \<noteq> ALREADY_KNOWN" by simp
  from a show "\<exists>st1. mintSingleTokenOptimized cfg tid rc (w # ws) st
                 = mintSingleTokenOptimized cfg tid (Suc rc) ws st1
           \<and> (\<exists>r. tokens st1 tid = Some r
                  \<and> status r = (case tokens st tid of
                                  None \<Rightarrow> ''pending'' | Some r0 \<Rightarrow> status r0))
           \<and> summary st1 = summary st
           \<and> (\<forall>j. isBackedOff (signerStates st1 ! j) \<longrightarrow>
                  isBackedOff (ss ! j)
                  \<or> (recordedSigner (tokens st) tid = Some j
                     \<and> SIGNER_BACKOFF_THRESHOLD cfg \<le> Suc (consecutiveFailures (ss ! j))))"
    using other_error_retry [OF _ _ k, of w st idx ss tid rc cfg ws] by (elim conjE) simp
next
  assume a: "getNextAvailableSigner (w_now w) (signerStates st) = (Some idx, ss)
      \<and> (w_nonce w = Inl msg \<or> (\<exists>n. w_nonce w = Inr n \<and> w_send w = Inl msg))
      \<and> classifyError msg = INSUFFICIENT_FUNDS
      \<and> (\<forall>i. recordedSigner (tokens st) tid = Some i \<longrightarrow> i < length (signerStates st))
      \<and> \<not> rc < RETRY_ATTEMPTS cfg"
  then have k: "classifyError msg \<noteq> ALREADY_KNOWN" by simp
  from a have i: "classifyError msg = INSUFFICIENT_FUNDS" by simp
  from a show "\<exists>st'. mintSingleTokenOptimized cfg tid rc (w # ws) st = Some (Inr (False, st', ws))
           \<and> (\<exists>r. tokens st' tid = Some r \<and> status r = ''failed''
                  \<and> errorType r = Some INSUFFICIENT_FUNDS
                  \<and> finalAttempt r = Some (rc + 1))
           \<and> failed (summary st') = failed (summary st) + 1"
    using other_error_final [OF _ _ k, of w st idx ss tid rc cfg ws]
    unfolding i by (elim conjE) simp
qed

theorem insufficient_funds_is_retried_witness:
  "mintSingleTokenOptimized (CONFIG [''0xA'']) 300001 0
      [\<lparr> w_now = 2000, w_nonce = Inr 7,
         w_send = Inl ''insufficient funds for gas * price + value'', w_fail_now = 2100 \<rparr>]
      (initializeBlockchain (CONFIG [''0xA'']) 1000 True (loadExistingProgress None))
     = None
   \<and> (\<exists>st'. mintSingleTokenOptimized (CONFIG [''0xA'']) 300001 5
               [\<lparr> w_now = 2000, w_nonce = Inr 7,
                  w_send = Inl ''insufficient funds for gas * price + value'',
                  w_fail_now = 2100 \<rparr>]
               (initializeBlockchain (CONFIG [''0xA'']) 1000 True (loadExistingProgress None))
             = Some (Inr (False, st', []))
           \<and> (\<exists>r. tokens st' 300001 = Some r \<and> status r = ''failed''
                  \<and> errorType r = Some INSUFFICIENT_FUNDS \<and> finalAttempt r = Some (5 + 1)))"
proof -
  let ?cfg = "CONFIG [''0xA'']"
  let ?st = "initializeBlockchain ?cfg 1000 True (loadExistingProgress None)"
  let ?msg = "''insufficient funds for gas * price + value''"
  let ?w = "\<lparr> w_now = 2000, w_nonce = Inr 7, w_send = Inl ?msg, w_fail_now = 2100 \<rparr>"
  have p1: "0 < length (signerStates ?st)" and p2: "\<not> isBackedOff (signerStates ?st ! 0)"
    unfolding fresh_pool by simp_all
  from getNextAvailableSigner_finds [OF p1 p2, of 2000]
  obtain idx ss where g: "getNextAvailableSigner (w_now ?w) (signerStates ?st) = (Some idx, ss)"
    by auto
  have n: "recordedSigner (tokens ?st) 300001 = None"
    by (simp add: recordedSigner_def loadExistingProgress_def)
  have e: "w_nonce ?w = Inl ?msg \<or> (\<exists>n. w_nonce ?w = Inr n \<and> w_send ?w = Inl ?msg)"
    by simp
  have r: "(0::nat) < RETRY_ATTEMPTS ?cfg" "\<not> (5::nat) < RETRY_ATTEMPTS ?cfg"
    by (simp_all add: CONFIG_def)
  have h1: "getNextAvailableSigner (w_now ?w) (signerStates ?st) = (Some idx, ss)
      \<and> (w_nonce ?w = Inl ?msg \<or> (\<exists>n. w_nonce ?w = Inr n \<and> w_send ?w = Inl ?msg))
      \<and> classifyError ?msg = INSUFFICIENT_FUNDS
      \<and> (\<forall>i. recordedSigner (tokens ?st) 300001 = Some i \<longrightarrow> i < length (signerStates ?st))
      \<and> 0 < RETRY_ATTEMPTS ?cfg"
    using g e insufficient_text r(1) unfolding n by simp
  have h2: "getNextAvailableSigner (w_now ?w) (signerStates ?st) = (Some idx, ss)
      \<and> (w_nonce ?w = Inl ?msg \<or> (\<exists>n. w_nonce ?w = Inr n \<and> w_send ?w = Inl ?msg))
      \<and> classifyError ?msg = INSUFFICIENT_FUNDS
      \<and> (\<forall>i. recordedSigner (tokens ?st) 300001 = Some i \<longrightarrow> i < length (signerStates ?st))
      \<and> \<not> 5 < RETRY_ATTEMPTS ?cfg"
    using g e insufficient_text r(2) unfolding n by simp
  note retry = insufficient_funds_is_retried
    [where w = ?w and st = ?st and idx = idx and ss = ss and msg = ?msg and tid = 300001
       and cfg = ?cfg and rc = 0 and ws = "[]"]
  note final = insufficient_funds_is_retried
    [where w = ?w and st = ?st and idx = idx and ss = ss and msg = ?msg and tid = 300001
       and cfg = ?cfg and rc = 5 and ws = "[]"]
  from mp [OF conjunct1 [OF retry] h1] obtain st1 where
    "mintSingleTokenOptimized ?cfg 300001 0 [?w] ?st
       = mintSingleTokenOptimized ?cfg 300001 (Suc 0) [] st1"
    by blast
  then have 1: "mintSingleTokenOptimized ?cfg 300001 0 [?w] ?st = None"
    by (simp only: mintSingleTokenOptimized.simps)
  from mp [OF conjunct2 [OF final] h2]
  have 2: "\<exists>st'. mintSingleTokenOptimized ?cfg 300001 5 [?w] ?st = Some (Inr (False, st', []))
           \<and> (\<exists>r. tokens st' 300001 = Some r \<and> status r = ''failed''
                  \<and> errorType r = Some INSUFFICIENT_FUNDS \<and> finalAttempt r = Some (5 + 1))"
    by blast
  from 1 2 show ?thesis by (rule conjI)
qed

text \<open>
  The claim as stated fails: with the script's own configuration and one signer, a first
  attempt that fails with ``insufficient funds'' is followed by a second attempt, which is
  mined. The call returns \<^verbatim>\<open>true\<close> after two submissions, and the signer is not backed off.
\<close>

theorem insufficient_funds_counterexample:
  "outcome (mintSingleTokenOptimized (CONFIG [''0xA'']) 300001 0
      [\<lparr> w_now = 2000, w_nonce = Inr 7,
         w_send = Inl ''insufficient funds for gas * price + value'', w_fail_now = 2100 \<rparr>,
       \<lparr> w_now = 5000, w_nonce = Inr 7,
         w_send = Inr \<lparr> r_hash = ''0xh1'', r_blockNumber = 10, r_gasUsed = 21000 \<rparr>,
         w_fail_now = 5000 \<rparr>]
      (initializeBlockchain (CONFIG [''0xA'']) 1000 True (loadExistingProgress None)))
   = Some (True, 2, [False])"
  by (simp add: insufficient_text getNextAvailableSigner_eq oldestSignerIndex_def
        reactivate_def attemptMint_def afterSend_def afterNonceQuery_def beginAttempt_def
        catchBlock_def handleSignerSuccess_def handleSignerFailure_def recordedSigner_def
        blamedSigner_def spreadRecord_def newTokenRecord_def initializeBlockchain_def
        loadExistingProgress_def CONFIG_def Let_def)

section \<open>The number of attempts\<close>















section \<open>Nonces\<close>







section \<open>Writing the log file: properties\<close>

lemma foldl_appends:
  "foldl applyStep d (map (Append p) xs)
     = (if xs = [] then d else d(p \<mapsto> (case d p of None \<Rightarrow> [] | Some t \<Rightarrow> t) @ xs))"
  by (induction xs arbitrary: d) auto

lemma runSteps_writeFile: "runSteps (writeFile p text) d = d(p \<mapsto> text)"
  by (simp add: runSteps_def writeFile_def foldl_appends)

lemma crashAfter_writeFile:
  "crashAfter k (writeFile p text) d = (if k = 0 then d else d(p \<mapsto> take (k - 1) text))"
proof (cases k)
  case 0
  then show ?thesis by (simp add: crashAfter_def runSteps_def)
next
  case (Suc m)
  have "take (Suc m) (writeFile p text) = writeFile p (take m text)"
    by (simp add: writeFile_def take_map)
  with Suc show ?thesis
    by (simp add: crashAfter_def runSteps_writeFile)
qed

text \<open>
  Claim C4, as the code has it. The save writes the serialised log straight to the log
  path: every step of it is on that path, there is no temporary file and no rename. A save
  that runs to the end leaves exactly the new text under the log path and nothing else
  changed, and saving again changes nothing. An interruption before the first step leaves
  the disk as it was; an interruption after \<open>k > 0\<close> steps leaves under the log path
  the first \<open>k - 1\<close> characters of the new text.
\<close>

theorem snapshot_direct_write:
  "runSteps (snapshot stringify cfg st) d = d(MINT_LOG_PATH cfg \<mapsto> stringify (mintLog st))
   \<and> runSteps (snapshot stringify cfg st) (runSteps (snapshot stringify cfg st) d)
       = runSteps (snapshot stringify cfg st) d
   \<and> (\<forall>s \<in> set (snapshot stringify cfg st). stepPath s = MINT_LOG_PATH cfg)
   \<and> crashAfter 0 (snapshot stringify cfg st) d = d
   \<and> (0 < k \<longrightarrow> crashAfter k (snapshot stringify cfg st) d
                   = d(MINT_LOG_PATH cfg \<mapsto> take (k - 1) (stringify (mintLog st))))"
proof (intro conjI ballI impI)
  show "runSteps (snapshot stringify cfg st) d
          = d(MINT_LOG_PATH cfg \<mapsto> stringify (mintLog st))"
    by (simp add: snapshot_def writeJson_def runSteps_writeFile)
  show "runSteps (snapshot stringify cfg st) (runSteps (snapshot stringify cfg st) d)
          = runSteps (snapshot stringify cfg st) d"
    by (simp add: snapshot_def writeJson_def runSteps_writeFile)
  show "crashAfter 0 (snapshot stringify cfg st) d = d"
    by (simp add: snapshot_def writeJson_def crashAfter_writeFile)
next
  fix s
  assume "s \<in> set (snapshot stringify cfg st)"
  then show "stepPath s = MINT_LOG_PATH cfg"
    by (auto simp: snapshot_def writeJson_def writeFile_def)
next
  assume "0 < k"
  then show "crashAfter k (snapshot stringify cfg st) d
               = d(MINT_LOG_PATH cfg \<mapsto> take (k - 1) (stringify (mintLog st)))"
    by (simp add: snapshot_def writeJson_def crashAfter_writeFile)
qed

text \<open>
  The old log is \<^verbatim>\<open>[1]\<close>, the new one \<^verbatim>\<open>[1,2]\<close>. Interrupted after the first step the
  file is empty, after the third it holds \<^verbatim>\<open>[1\<close>: neither the old nor the new log, and
  not a text that parses.
\<close>

theorem snapshot_direct_write_counterexample:
  "crashAfter 1 (snapshot (stringifyAs ''[1,2]'') (CONFIG []) (loadExistingProgress None))
     [MINT_LOG_PATH (CONFIG []) \<mapsto> ''[1]''] (MINT_LOG_PATH (CONFIG [])) = Some []
   \<and> crashAfter 3 (snapshot (stringifyAs ''[1,2]'') (CONFIG []) (loadExistingProgress None))
     [MINT_LOG_PATH (CONFIG []) \<mapsto> ''[1]''] (MINT_LOG_PATH (CONFIG [])) = Some ''[1''"
  by (simp add: snapshot_def writeJson_def crashAfter_writeFile stringifyAs_def)

theorem snapshot_direct_write_witness:
  "Truncate (MINT_LOG_PATH (CONFIG []))
     \<in> set (snapshot (stringifyAs ''[1,2]'') (CONFIG []) (loadExistingProgress None))
   \<and> stepPath (Truncate (MINT_LOG_PATH (CONFIG []))) = MINT_LOG_PATH (CONFIG [])
   \<and> crashAfter 2 (snapshot (stringifyAs ''[1,2]'') (CONFIG []) (loadExistingProgress None))
       [MINT_LOG_PATH (CONFIG []) \<mapsto> ''[1]'']
     = [MINT_LOG_PATH (CONFIG []) \<mapsto> ''['']
   \<and> runSteps (snapshot (stringifyAs ''[1,2]'') (CONFIG []) (loadExistingProgress None))
       [MINT_LOG_PATH (CONFIG []) \<mapsto> ''[1]'']
     = [MINT_LOG_PATH (CONFIG []) \<mapsto> ''[1,2]'']"
proof -
  let ?steps = "snapshot (stringifyAs ''[1,2]'') (CONFIG []) (loadExistingProgress None)"
  let ?p = "MINT_LOG_PATH (CONFIG [])"
  let ?d = "[?p \<mapsto> ''[1]'']"
  note t = snapshot_direct_write
    [where stringify = "stringifyAs ''[1,2]''" and cfg = "CONFIG []"
       and st = "loadExistingProgress None" and d = ?d and k = 2]
  have m: "Truncate ?p \<in> set ?steps"
    by (simp add: snapshot_def writeJson_def writeFile_def)
  from t have a: "\<forall>s \<in> set ?steps. stepPath s = ?p" by blast
  from a m have 1: "stepPath (Truncate ?p) = ?p" by (rule bspec)
  have k: "(0::nat) < 2" by simp
  from t k have "crashAfter 2 ?steps ?d
                   = ?d(?p \<mapsto> take (2 - 1) (stringifyAs ''[1,2]'' (mintLog (loadExistingProgress None))))"
    by blast
  then have 2: "crashAfter 2 ?steps ?d = [?p \<mapsto> ''['']"
    by (simp add: stringifyAs_def)
  from t have "runSteps ?steps ?d
                 = ?d(?p \<mapsto> stringifyAs ''[1,2]'' (mintLog (loadExistingProgress None)))"
    by (rule conjunct1)
  then have 3: "runSteps ?steps ?d = [?p \<mapsto> ''[1,2]'']"
    by (simp add: stringifyAs_def)
  from m 1 2 3 show ?thesis by simp
qed

end
